theory Spec2Isabelle
  imports Complex_Main "HOL-Library.FSet"
begin

section \<open>Python values, exceptions and the library functions the script calls\<close>

text \<open>
  The script \<^verbatim>\<open>splose_export_to_flat_csv.py\<close> works on what \<^verbatim>\<open>json.loads\<close> returns and on
  the cells of \<^verbatim>\<open>csv.DictReader\<close> rows. A Python value of that kind is a \<open>json\<close>:
  \<open>JNull\<close> is \<^verbatim>\<open>None\<close>, a dict is an association list read with \<open>map_of\<close>.
  Characters are the code points below 256; a float is its rational value
  (\<^verbatim>\<open>NaN\<close> and the infinities are left out).
\<close>

datatype json =
    JNull
  | JBool bool
  | JInt int
  | JFloat rat
  | JStr string
  | JList "json list"
  | JObj "(string \<times> json) list"

text \<open>The exceptions of the script: every raise is a value \<open>Inl e\<close>.\<close>

datatype exn = AttributeError | TypeError | JSONDecodeError | OtherError

text \<open>
  Three library functions are not part of the script and are taken as parameters:
  \<^verbatim>\<open>json.loads\<close> (which returns a value or raises), \<^verbatim>\<open>html.unescape\<close>, and
  \<^verbatim>\<open>str\<close> on floats, lists and dicts.
\<close>

record pylib =
  json_loads :: "string \<Rightarrow> exn + json"
  html_unescape :: "string \<Rightarrow> string"
  repr_other :: "json \<Rightarrow> string"

text \<open>Truth value of a Python object, as \<^verbatim>\<open>not x\<close>, \<^verbatim>\<open>x or y\<close> and \<^verbatim>\<open>if x\<close> test it.\<close>

fun truthy :: "json \<Rightarrow> bool" where
  "truthy JNull = False"
| "truthy (JBool b) = b"
| "truthy (JInt i) = (i \<noteq> 0)"
| "truthy (JFloat r) = (r \<noteq> 0)"
| "truthy (JStr s) = (s \<noteq> [])"
| "truthy (JList xs) = (xs \<noteq> [])"
| "truthy (JObj kvs) = (kvs \<noteq> [])"

definition py_or :: "json \<Rightarrow> json \<Rightarrow> json" where
  "py_or a b = (if truthy a then a else b)"

text \<open>\<^verbatim>\<open>x.get(k)\<close>: only a dict has the method.\<close>

fun py_get :: "json \<Rightarrow> string \<Rightarrow> exn + json" where
  "py_get (JObj kvs) k = Inr (case map_of kvs k of None \<Rightarrow> JNull | Some v \<Rightarrow> v)"
| "py_get _ k = Inl AttributeError"

text \<open>\<^verbatim>\<open>for x in v\<close>: a list yields its elements, a string its characters, a dict its keys;
  the other values are not iterable.\<close>

fun py_iter :: "json \<Rightarrow> exn + json list" where
  "py_iter (JList xs) = Inr xs"
| "py_iter (JStr s) = Inr (map (\<lambda>c. JStr [c]) s)"
| "py_iter (JObj kvs) = Inr (map JStr (remdups (map fst kvs)))"
| "py_iter _ = Inl TypeError"

subsection \<open>Strings\<close>

text \<open>The characters \<^verbatim>\<open>str.strip()\<close> removes and \<^verbatim>\<open>\s\<close> matches.\<close>

definition is_space :: "char \<Rightarrow> bool" where
  "is_space c = (c \<in> set [CHR 0x09, CHR 0x0A, CHR 0x0B, CHR 0x0C, CHR 0x0D,
     CHR 0x1C, CHR 0x1D, CHR 0x1E, CHR 0x1F, CHR 0x20, CHR 0x85, CHR 0xA0])"

definition strip_with :: "(char \<Rightarrow> bool) \<Rightarrow> string \<Rightarrow> string" where
  "strip_with P s = rev (dropWhile P (rev (dropWhile P s)))"

definition py_strip :: "string \<Rightarrow> string" where
  "py_strip s = strip_with is_space s"

text \<open>\<^verbatim>\<open>s.strip('"')\<close> removes every leading and every trailing quote character.\<close>

definition strip_quotes :: "string \<Rightarrow> string" where
  "strip_quotes s = strip_with (\<lambda>c. c = CHR 0x22) s"

text \<open>\<^verbatim>\<open>WS_REGEX.sub(" ", s)\<close> with \<^verbatim>\<open>WS_REGEX = \s+\<close>: every maximal run of white space
  becomes one space.\<close>

function ws_sub :: "string \<Rightarrow> string" where
  "ws_sub [] = []"
| "ws_sub (c # cs) =
     (if is_space c then CHR 0x20 # ws_sub (dropWhile is_space cs) else c # ws_sub cs)"
  by pat_completeness auto
termination
  by (relation "measure length") (auto simp: less_Suc_eq_le length_dropWhile_le)

text \<open>\<^verbatim>\<open>TAG_REGEX.sub(" ", s)\<close> with \<^verbatim>\<open>TAG_REGEX = <[^>]+>\<close>: scanning from the left, a
  \<^verbatim>\<open><\<close> followed by at least one character other than \<^verbatim>\<open>>\<close> and then a \<^verbatim>\<open>>\<close> is replaced
  by one space.\<close>

function tag_sub :: "string \<Rightarrow> string" where
  "tag_sub [] = []"
| "tag_sub (c # cs) =
     (if c = CHR 0x3C \<and> takeWhile (\<lambda>x. x \<noteq> CHR 0x3E) cs \<noteq> []
         \<and> dropWhile (\<lambda>x. x \<noteq> CHR 0x3E) cs \<noteq> []
      then CHR 0x20 # tag_sub (tl (dropWhile (\<lambda>x. x \<noteq> CHR 0x3E) cs))
      else c # tag_sub cs)"
  by pat_completeness auto
termination
proof (relation "measure length")
  show "wf (measure length)" by simp
next
  fix c :: char and cs :: string
  assume "c = CHR 0x3C \<and> takeWhile (\<lambda>x. x \<noteq> CHR 0x3E) cs \<noteq> []
     \<and> dropWhile (\<lambda>x. x \<noteq> CHR 0x3E) cs \<noteq> []"
  have "length (tl (dropWhile (\<lambda>x. x \<noteq> CHR 0x3E) cs)) \<le> length cs"
    using length_dropWhile_le [of "\<lambda>x. x \<noteq> CHR 0x3E" cs] by simp
  then show "(tl (dropWhile (\<lambda>x. x \<noteq> CHR 0x3E) cs), c # cs) \<in> measure length"
    by simp
next
  fix c :: char and cs :: string
  show "(cs, c # cs) \<in> measure length" by simp
qed

text \<open>\<^verbatim>\<open>str(n)\<close> for an integer: decimal digits, a minus sign when negative.
  \<open>digit_char\<close> is the character of a digit \<open>d < 10\<close>, the only values \<open>str_nat\<close> asks for.\<close>

definition digit_char :: "nat \<Rightarrow> char" where
  "digit_char d = ''0123456789'' ! d"

fun str_nat :: "nat \<Rightarrow> string" where
  "str_nat n = (if n < 10 then [digit_char n] else str_nat (n div 10) @ [digit_char (n mod 10)])"

declare str_nat.simps [simp del]

definition str_int :: "int \<Rightarrow> string" where
  "str_int i = (if i < 0 then CHR 0x2D # str_nat (nat (- i)) else str_nat (nat i))"

text \<open>\<^verbatim>\<open>f"{i:02d}"\<close>: the sign counts in the width 2, zeros fill after it.\<close>

definition fmt_02d :: "int \<Rightarrow> string" where
  "fmt_02d i =
     (if i < 0 then CHR 0x2D # str_nat (nat (- i))
      else if i < 10 then CHR 0x30 # str_nat (nat i)
      else str_nat (nat i))"

text \<open>\<^verbatim>\<open>"; ".join(xs)\<close> and \<^verbatim>\<open>" ".join(xs)\<close>.\<close>

fun join :: "string \<Rightarrow> string list \<Rightarrow> string" where
  "join sep [] = []"
| "join sep [x] = x"
| "join sep (x # y # ys) = x @ sep @ join sep (y # ys)"

text \<open>\<^verbatim>\<open>str(v)\<close>.\<close>

definition py_str :: "pylib \<Rightarrow> json \<Rightarrow> string" where
  "py_str lib v =
     (case v of
        JStr s \<Rightarrow> s
      | JInt i \<Rightarrow> str_int i
      | JBool b \<Rightarrow> (if b then ''True'' else ''False'')
      | JNull \<Rightarrow> ''None''
      | _ \<Rightarrow> repr_other lib v)"

section \<open>Text normalizer\<close>

text \<open>\<^verbatim>\<open>norm_title(s) = WS_REGEX.sub(" ", (s or "").strip())\<close>. On a string it is
  \<open>norm_title_str\<close>; a true value that is not a string has no \<^verbatim>\<open>strip\<close>.\<close>

definition norm_title_str :: "string \<Rightarrow> string" where
  "norm_title_str s = ws_sub (py_strip s)"

definition norm_title :: "json \<Rightarrow> exn + string" where
  "norm_title s =
     (case py_or s (JStr []) of
        JStr t \<Rightarrow> Inr (norm_title_str t)
      | _ \<Rightarrow> Inl AttributeError)"

definition clean_text :: "pylib \<Rightarrow> json \<Rightarrow> string" where
  "clean_text lib s =
     (case s of
        JNull \<Rightarrow> []
      | _ \<Rightarrow> py_strip (ws_sub (tag_sub (html_unescape lib (py_str lib s)))))"

section \<open>Row filter\<close>

text \<open>
  A row of \<^verbatim>\<open>csv.DictReader\<close> maps column names to strings; a short record gives
  \<^verbatim>\<open>None\<close> for its missing columns, which every use in the script treats like a missing
  key, so both are \<open>None\<close> of the map.
\<close>

type_synonym row = "string \<rightharpoonup> string"

definition row_get :: "row \<Rightarrow> string \<Rightarrow> json" where
  "row_get r c = (case r c of None \<Rightarrow> JNull | Some v \<Rightarrow> JStr v)"

definition should_keep_row :: "row \<Rightarrow> string option \<Rightarrow> string list option \<Rightarrow> bool" where
  "should_keep_row r title_col form_titles =
     (case form_titles of
        None \<Rightarrow> True
      | Some fts \<Rightarrow>
          (case title_col of
             None \<Rightarrow> False
           | Some tc \<Rightarrow>
               if tc = [] then False
               else if norm_title_str (case r tc of None \<Rightarrow> [] | Some v \<Rightarrow> v) \<notin> set fts
               then False
               else True))"

text \<open>\<^verbatim>\<open>[norm_title(t) for t in form_titles]\<close>.\<close>

fun norm_titles :: "json list \<Rightarrow> exn + string list" where
  "norm_titles [] = Inr []"
| "norm_titles (t # ts) =
     (case norm_title t of
        Inl e \<Rightarrow> Inl e
      | Inr n \<Rightarrow> (case norm_titles ts of Inl e \<Rightarrow> Inl e | Inr ns \<Rightarrow> Inr (n # ns)))"

text \<open>Lines 378 to 382 of \<^verbatim>\<open>main\<close>: the value of \<^verbatim>\<open>form_titles\<close> that the row filter
  receives, from the configuration object.\<close>

definition main_form_titles :: "(string \<times> json) list \<Rightarrow> exn + string list" where
  "main_form_titles cfg =
     (case (case map_of cfg ''form_titles'' of None \<Rightarrow> JNull | Some v \<Rightarrow> v) of
        JList ts \<Rightarrow> norm_titles ts
      | _ \<Rightarrow> Inr [])"

section \<open>Payload parser\<close>

text \<open>Lines 138 to 145: a list is returned as it is; in a dict the first of the five keys
  whose value is a list gives the result.\<close>

fun first_list_under :: "json \<Rightarrow> string list \<Rightarrow> json list option" where
  "first_list_under obj [] = None"
| "first_list_under obj (k # ks) =
     (case py_get obj k of
        Inr (JList v) \<Rightarrow> Some v
      | _ \<Rightarrow> first_list_under obj ks)"

definition sections_of :: "json \<Rightarrow> json list option" where
  "sections_of obj =
     (case obj of
        JList xs \<Rightarrow> Some xs
      | JObj kvs \<Rightarrow>
          first_list_under obj [''sections'', ''data'', ''form'', ''payload'', ''answers'']
      | _ \<Rightarrow> None)"

text \<open>\<^verbatim>\<open>s.startswith("[") or s.startswith("{")\<close>.\<close>

definition starts_bracket :: "string \<Rightarrow> bool" where
  "starts_bracket s = (case s of [] \<Rightarrow> False | c # _ \<Rightarrow> c = CHR 0x5B \<or> c = CHR 0x7B)"

text \<open>
  The first \<^verbatim>\<open>except\<close> clause catches \<^verbatim>\<open>json.JSONDecodeError\<close> only and parses again,
  the text stripped of its quote characters; the handler of that second parse and the
  last clause of the first one catch every \<^verbatim>\<open>Exception\<close>.
\<close>

definition parse_json_sections :: "pylib \<Rightarrow> json \<Rightarrow> exn + json list option" where
  "parse_json_sections lib cell =
     (case cell of
        JStr c \<Rightarrow>
          (let s = py_strip c in
           if s = [] then Inr None
           else if \<not> starts_bracket s then Inr None
           else
             (case json_loads lib s of
                Inr obj \<Rightarrow> Inr (sections_of obj)
              | Inl JSONDecodeError \<Rightarrow>
                  (case json_loads lib (strip_quotes s) of
                     Inr obj \<Rightarrow> Inr (sections_of obj)
                   | Inl _ \<Rightarrow> Inr None)
              | Inl _ \<Rightarrow> Inr None))
      | _ \<Rightarrow> Inr None)"

section \<open>Answer extractor\<close>

text \<open>\<^verbatim>\<open>norm_title(q.get(k) or "")\<close> and \<^verbatim>\<open>clean_text(q.get(k) or "")\<close>.\<close>

definition norm_field :: "json \<Rightarrow> string \<Rightarrow> exn + string" where
  "norm_field q k =
     (case py_get q k of Inl e \<Rightarrow> Inl e | Inr v \<Rightarrow> norm_title (py_or v (JStr [])))"

definition clean_field :: "pylib \<Rightarrow> json \<Rightarrow> string \<Rightarrow> exn + string" where
  "clean_field lib q k =
     (case py_get q k of Inl e \<Rightarrow> Inl e | Inr v \<Rightarrow> Inr (clean_text lib (py_or v (JStr []))))"

text \<open>The body of the loop of \<^verbatim>\<open>extract_checkboxes\<close> for one option: the value it appends
  to \<^verbatim>\<open>picked\<close>, if any.\<close>

definition checkbox_pick :: "pylib \<Rightarrow> json \<Rightarrow> exn + string option" where
  "checkbox_pick lib o' =
     (case o' of
        JObj kvs \<Rightarrow>
          (case py_get o' ''checked'' of
             Inr (JBool True) \<Rightarrow>
               (case (py_get o' ''label'', py_get o' ''value'') of
                  (Inr l, Inr v) \<Rightarrow>
                    (case py_or (py_or l v) (JStr []) of
                       JStr t \<Rightarrow>
                         (let val0 = py_strip t;
                              val = (if val0 = [] \<and> py_get o' ''customChoice'' = Inr (JBool True)
                                     then ''Other'' else val0)
                          in if val \<noteq> [] then Inr (Some (clean_text lib (JStr val)))
                             else Inr None)
                     | _ \<Rightarrow> Inl AttributeError)
                | (Inl e, _) \<Rightarrow> Inl e
                | (_, Inl e) \<Rightarrow> Inl e)
           | _ \<Rightarrow> Inr None)
      | _ \<Rightarrow> Inr None)"

fun checkbox_picks :: "pylib \<Rightarrow> json list \<Rightarrow> exn + string list" where
  "checkbox_picks lib [] = Inr []"
| "checkbox_picks lib (o' # os) =
     (case checkbox_pick lib o' of
        Inl e \<Rightarrow> Inl e
      | Inr p \<Rightarrow>
          (case checkbox_picks lib os of
             Inl e \<Rightarrow> Inl e
           | Inr ps \<Rightarrow> Inr ((case p of None \<Rightarrow> [] | Some v \<Rightarrow> [v]) @ ps)))"

definition extract_checkboxes :: "pylib \<Rightarrow> json \<Rightarrow> exn + string option" where
  "extract_checkboxes lib q =
     (case py_get q ''checkboxes'' of
        Inl e \<Rightarrow> Inl e
      | Inr (JList opts) \<Rightarrow>
          (case checkbox_picks lib opts of
             Inl e \<Rightarrow> Inl e
           | Inr picked \<Rightarrow> Inr (if picked \<noteq> [] then Some (join ''; '' picked) else None))
      | Inr _ \<Rightarrow> Inr None)"

text \<open>\<^verbatim>\<open>isinstance(v, int)\<close>: Python's \<^verbatim>\<open>bool\<close> is a subclass of \<^verbatim>\<open>int\<close>.\<close>

fun as_int :: "json \<Rightarrow> int option" where
  "as_int (JInt i) = Some i"
| "as_int (JBool b) = Some (if b then 1 else 0)"
| "as_int _ = None"

text \<open>\<^verbatim>\<open>txt if txt else None\<close>.\<close>

definition nonempty :: "string \<Rightarrow> string option" where
  "nonempty txt = (if txt \<noteq> [] then Some txt else None)"

text \<open>The loop of the generic rule, over \<^verbatim>\<open>["answerText"] + other_interested_keys\<close>.\<close>

fun generic_answers :: "pylib \<Rightarrow> json \<Rightarrow> string list \<Rightarrow> exn + string list" where
  "generic_answers lib q [] = Inr []"
| "generic_answers lib q (key # keys) =
     (case clean_field lib q key of
        Inl e \<Rightarrow> Inl e
      | Inr t \<Rightarrow>
          (case generic_answers lib q keys of
             Inl e \<Rightarrow> Inl e
           | Inr ts \<Rightarrow> Inr ((if t \<noteq> [] then [t] else []) @ ts)))"

definition extract_answer :: "pylib \<Rightarrow> json \<Rightarrow> string list \<Rightarrow> exn + string option" where
  "extract_answer lib q other_interested_keys =
     (case norm_field q ''type'' of
        Inl e \<Rightarrow> Inl e
      | Inr qtype \<Rightarrow>
          if qtype = ''Statement'' then Inr None
          else if qtype \<in> set [''Short answer'', ''Paragraph'', ''Yes/No''] then
            (case py_get q ''answerText'' of
               Inl e \<Rightarrow> Inl e
             | Inr (JStr t) \<Rightarrow> Inr (nonempty (clean_text lib (JStr t)))
             | Inr _ \<Rightarrow> Inr None)
          else if qtype = ''Patient name'' then
            (case (clean_field lib q ''firstName'', clean_field lib q ''lastName'') of
               (Inr first', Inr last') \<Rightarrow>
                 Inr (nonempty (join '' '' (filter (\<lambda>x. x \<noteq> []) [first', last'])))
             | (Inl e, _) \<Rightarrow> Inl e
             | (_, Inl e) \<Rightarrow> Inl e)
          else if qtype = ''Date of birth'' then
            (case (py_get q ''birthYear'', py_get q ''birthMonth'', py_get q ''birthDay'') of
               (Inr y, Inr m, Inr d) \<Rightarrow>
                 (case (as_int y, as_int m, as_int d) of
                    (Some yi, Some mi, Some di) \<Rightarrow>
                      Inr (Some (fmt_02d di @ ''/'' @ fmt_02d (mi + 1) @ ''/''
                                 @ (case y of JBool b \<Rightarrow> (if b then ''True'' else ''False'')
                                              | _ \<Rightarrow> str_int yi)))
                  | _ \<Rightarrow>
                      (case clean_field lib q ''answerText'' of
                         Inl e \<Rightarrow> Inl e
                       | Inr txt \<Rightarrow> Inr (nonempty txt)))
             | _ \<Rightarrow> Inl AttributeError)
          else if qtype \<in> set [''Checkboxes'', ''Multiple choice''] then
            (case extract_checkboxes lib q of
               Inl e \<Rightarrow> Inl e
             | Inr picked \<Rightarrow>
                 if picked \<noteq> None \<and> picked \<noteq> Some [] then Inr picked
                 else
                   (case clean_field lib q ''answerText'' of
                      Inl e \<Rightarrow> Inl e
                    | Inr txt \<Rightarrow> Inr (nonempty txt)))
          else if qtype = ''Signature'' then
            (case py_get q ''signature'' of
               Inl e \<Rightarrow> Inl e
             | Inr (JStr sig) \<Rightarrow>
                 Inr (Some (if py_strip sig \<noteq> [] then ''signed'' else ''not signed''))
             | Inr _ \<Rightarrow> Inr (Some ''not signed''))
          else
            (case generic_answers lib q (''answerText'' # other_interested_keys) of
               Inl e \<Rightarrow> Inl e
             | Inr txt \<Rightarrow> Inr (if txt \<noteq> [] then Some (join ''; '' txt) else None)))"

section \<open>Title deduplicator\<close>

text \<open>\<^verbatim>\<open>f"{candidate} #{k}"\<close>.\<close>

definition suffixed :: "string \<Rightarrow> nat \<Rightarrow> string" where
  "suffixed candidate k = candidate @ '' #'' @ str_nat k"

text \<open>The suffixes are pairwise different, which is why the \<^verbatim>\<open>while\<close> loop of
  \<^verbatim>\<open>unique_title\<close> ends: a decimal numeral determines its number.\<close>

definition nat_of_digits :: "string \<Rightarrow> nat" where
  "nat_of_digits s = foldl (\<lambda>a c. 10 * a + (of_char c - 48)) 0 s"

lemma of_char_digit_char:
  assumes "d < 10"
  shows "of_char (digit_char d) = (48 + d :: nat)"
proof -
  from assms have "d \<in> {0, 1, 2, 3, 4, 5, 6, 7, 8, 9}" by auto
  then show ?thesis by (auto simp: digit_char_def)
qed

lemma nat_of_digits_str_nat: "nat_of_digits (str_nat n) = n"
proof (induction n rule: str_nat.induct)
  case (1 n)
  show ?case
  proof (cases "n < 10")
    case True
    then show ?thesis
      by (subst str_nat.simps) (simp add: nat_of_digits_def of_char_digit_char)
  next
    case False
    have "n mod 10 < 10" by simp
    then have d: "of_char (digit_char (n mod 10)) = 48 + n mod 10"
      by (rule of_char_digit_char)
    from False 1 have ih: "nat_of_digits (str_nat (n div 10)) = n div 10" by simp
    have "nat_of_digits (str_nat n) = 10 * nat_of_digits (str_nat (n div 10)) + n mod 10"
      using False d by (subst str_nat.simps) (simp add: nat_of_digits_def)
    with ih show ?thesis by simp
  qed
qed

lemma inj_str_nat: "inj str_nat"
  by (rule inj_on_inverseI [where g = nat_of_digits]) (rule nat_of_digits_str_nat)

lemma inj_suffixed: "inj (suffixed candidate)"
  using inj_str_nat by (auto simp: inj_on_def suffixed_def)

lemma finite_suffixed_in: "finite {j. suffixed candidate j |\<in>| seen}"
proof -
  have "{j. suffixed candidate j |\<in>| seen} = suffixed candidate -` fset seen"
    by auto
  then show ?thesis
    using finite_vimageI [OF finite_fset inj_suffixed, of candidate seen] by simp
qed

text \<open>The \<^verbatim>\<open>while final in seen\<close> loop, on its variables \<^verbatim>\<open>final\<close> and \<^verbatim>\<open>k\<close>.\<close>

function suffix_loop :: "string \<Rightarrow> string fset \<Rightarrow> string \<Rightarrow> nat \<Rightarrow> string" where
  "suffix_loop candidate seen final k =
     (if final |\<in>| seen then suffix_loop candidate seen (suffixed candidate k) (k + 1)
      else final)"
  by pat_completeness auto
termination
proof (relation "measure (\<lambda>(candidate, seen, final, k).
    (if final |\<in>| seen then 1 else 0)
    + 2 * card {j. k \<le> j \<and> suffixed candidate j |\<in>| seen})")
  show "wf (measure (\<lambda>(candidate, seen, final, k).
    (if final |\<in>| seen then 1 else 0)
    + 2 * card {j. k \<le> j \<and> suffixed candidate j |\<in>| seen}))" by simp
next
  fix candidate :: string and seen :: "string fset" and final :: string and k :: nat
  assume f: "final |\<in>| seen"
  let ?A = "{j. k \<le> j \<and> suffixed candidate j |\<in>| seen}"
  let ?B = "{j. k + 1 \<le> j \<and> suffixed candidate j |\<in>| seen}"
  have finA: "finite ?A"
    by (rule finite_subset [OF _ finite_suffixed_in [of candidate seen]]) auto
  have sub: "?B \<subseteq> ?A" by auto
  show "((candidate, seen, suffixed candidate k, k + 1), (candidate, seen, final, k))
    \<in> measure (\<lambda>(candidate, seen, final, k).
    (if final |\<in>| seen then 1 else 0)
    + 2 * card {j. k \<le> j \<and> suffixed candidate j |\<in>| seen})"
  proof (cases "suffixed candidate k |\<in>| seen")
    case True
    then have "k \<in> ?A" "k \<notin> ?B" by auto
    then have "?B \<subset> ?A" using sub by blast
    then have "card ?B < card ?A" using finA by (rule psubset_card_mono [rotated])
    then show ?thesis using f True by simp
  next
    case False
    have "card ?B \<le> card ?A" using sub finA by (simp add: card_mono)
    then show ?thesis using f False by simp
  qed
qed

declare suffix_loop.simps [simp del]

text \<open>\<^verbatim>\<open>unique_title(base, q, seen)\<close> returns the final title and the set \<^verbatim>\<open>seen\<close> as it
  leaves it. \<^verbatim>\<open>(q.get("id") or "").strip()\<close> is evaluated on every call that passes the
  first test, and raises when the id is a true value that is not a string.\<close>

definition unique_title :: "string \<Rightarrow> json \<Rightarrow> string fset \<Rightarrow> exn + (string \<times> string fset)" where
  "unique_title base q seen =
     (if base \<noteq> [] \<and> base |\<notin>| seen then Inr (base, finsert base seen)
      else
        (case py_get q ''id'' of
           Inl e \<Rightarrow> Inl e
         | Inr v \<Rightarrow>
             (case py_or v (JStr []) of
                JStr i \<Rightarrow>
                  (let qid = py_strip i;
                       candidate =
                         (if base = [] then
                            (if qid \<noteq> [] then ''(untitled:'' @ qid @ '')'' else ''(untitled)'')
                          else base);
                       final0 = (if candidate \<noteq> [] then candidate else base);
                       final = suffix_loop candidate seen final0 2
                   in Inr (final, finsert final seen))
              | _ \<Rightarrow> Inl AttributeError)))"

section \<open>Flattening one row\<close>

text \<open>\<^verbatim>\<open>for q in sec.get("questions") or []\<close>: the questions a section is iterated over.\<close>

definition questions_of :: "json \<Rightarrow> exn + json list" where
  "questions_of sec =
     (case py_get sec ''questions'' of
        Inl e \<Rightarrow> Inl e
      | Inr v \<Rightarrow> py_iter (py_or v (JList [])))"

subsection \<open>Pass-1 titles of a row: \<^verbatim>\<open>collect_question_titles\<close>\<close>

text \<open>The body of the inner loop on the variables \<^verbatim>\<open>titles\<close> and \<^verbatim>\<open>seen\<close>; a
  \<^verbatim>\<open>continue\<close> returns them unchanged.\<close>

definition collect_question ::
  "json \<Rightarrow> string list \<times> string fset \<Rightarrow> exn + (string list \<times> string fset)" where
  "collect_question q st =
     (case st of (titles, seen) \<Rightarrow>
        (case norm_field q ''type'' of
           Inl e \<Rightarrow> Inl e
         | Inr qtype \<Rightarrow>
             if qtype = ''Statement'' then Inr (titles, seen)
             else
               (case norm_field q ''title'' of
                  Inl e \<Rightarrow> Inl e
                | Inr base_title \<Rightarrow>
                    (case unique_title base_title q seen of
                       Inl e \<Rightarrow> Inl e
                     | Inr (final_title, seen') \<Rightarrow>
                         Inr (titles @ [final_title], finsert final_title seen')))))"

fun collect_questions ::
  "json list \<Rightarrow> string list \<times> string fset \<Rightarrow> exn + (string list \<times> string fset)" where
  "collect_questions [] st = Inr st"
| "collect_questions (q # qs) st =
     (case collect_question q st of Inl e \<Rightarrow> Inl e | Inr st' \<Rightarrow> collect_questions qs st')"

fun collect_sections ::
  "json list \<Rightarrow> string list \<times> string fset \<Rightarrow> exn + (string list \<times> string fset)" where
  "collect_sections [] st = Inr st"
| "collect_sections (sec # secs) st =
     (case questions_of sec of
        Inl e \<Rightarrow> Inl e
      | Inr qs \<Rightarrow>
          (case collect_questions qs st of
             Inl e \<Rightarrow> Inl e
           | Inr st' \<Rightarrow> collect_sections secs st'))"

definition collect_question_titles :: "json list \<Rightarrow> exn + string list" where
  "collect_question_titles sections =
     (case collect_sections sections ([], {||}) of
        Inl e \<Rightarrow> Inl e
      | Inr (titles, seen) \<Rightarrow> Inr titles)"

subsection \<open>Pass-2 answers of a row: \<^verbatim>\<open>flatten_questions\<close>\<close>

type_synonym qmap = "string \<rightharpoonup> string list"

text \<open>\<^verbatim>\<open>out.setdefault(k, [])\<close> and \<^verbatim>\<open>out[k].append(a)\<close>.\<close>

definition setdefault_empty :: "qmap \<Rightarrow> string \<Rightarrow> qmap" where
  "setdefault_empty out k = (case out k of None \<Rightarrow> out(k \<mapsto> []) | Some xs \<Rightarrow> out)"

definition append_answer :: "qmap \<Rightarrow> string \<Rightarrow> string \<Rightarrow> qmap" where
  "append_answer out k a = out(k \<mapsto> (case out k of None \<Rightarrow> [] | Some xs \<Rightarrow> xs) @ [a])"

text \<open>\<^verbatim>\<open>q.get("shown") is False\<close>.\<close>

definition is_hidden :: "json \<Rightarrow> bool" where
  "is_hidden q = (py_get q ''shown'' = Inr (JBool False))"

text \<open>The body of the inner loop on the variables \<^verbatim>\<open>out\<close> and \<^verbatim>\<open>seen\<close>.\<close>

definition flatten_question ::
  "pylib \<Rightarrow> string list \<Rightarrow> json \<Rightarrow> qmap \<times> string fset \<Rightarrow> exn + (qmap \<times> string fset)" where
  "flatten_question lib other_interested_keys q st =
     (case st of (out, seen) \<Rightarrow>
        (case norm_field q ''type'' of
           Inl e \<Rightarrow> Inl e
         | Inr qtype \<Rightarrow>
             if qtype = ''Statement'' then Inr (out, seen)
             else
               (case norm_field q ''title'' of
                  Inl e \<Rightarrow> Inl e
                | Inr base_title \<Rightarrow>
                    (case unique_title base_title q seen of
                       Inl e \<Rightarrow> Inl e
                     | Inr (final_title, seen') \<Rightarrow>
                         if is_hidden q then Inr (out, finsert final_title seen')
                         else
                           (case extract_answer lib q other_interested_keys of
                              Inl e \<Rightarrow> Inl e
                            | Inr ans \<Rightarrow>
                                (let out1 = setdefault_empty out final_title;
                                     out2 =
                                       (case ans of
                                          None \<Rightarrow> out1
                                        | Some a \<Rightarrow>
                                            if py_strip a \<noteq> []
                                            then append_answer out1 final_title a
                                            else out1)
                                 in Inr (out2, finsert final_title seen')))))))"

fun flatten_section_questions ::
  "pylib \<Rightarrow> string list \<Rightarrow> json list \<Rightarrow> qmap \<times> string fset \<Rightarrow> exn + (qmap \<times> string fset)" where
  "flatten_section_questions lib keys [] st = Inr st"
| "flatten_section_questions lib keys (q # qs) st =
     (case flatten_question lib keys q st of
        Inl e \<Rightarrow> Inl e
      | Inr st' \<Rightarrow> flatten_section_questions lib keys qs st')"

fun flatten_sections ::
  "pylib \<Rightarrow> string list \<Rightarrow> json list \<Rightarrow> qmap \<times> string fset \<Rightarrow> exn + (qmap \<times> string fset)" where
  "flatten_sections lib keys [] st = Inr st"
| "flatten_sections lib keys (sec # secs) st =
     (case questions_of sec of
        Inl e \<Rightarrow> Inl e
      | Inr qs \<Rightarrow>
          (case flatten_section_questions lib keys qs st of
             Inl e \<Rightarrow> Inl e
           | Inr st' \<Rightarrow> flatten_sections lib keys secs st'))"

definition flatten_questions :: "pylib \<Rightarrow> json list \<Rightarrow> string list \<Rightarrow> exn + qmap" where
  "flatten_questions lib sections other_interested_keys =
     (case flatten_sections lib other_interested_keys sections (Map.empty, {||}) of
        Inl e \<Rightarrow> Inl e
      | Inr (out, seen) \<Rightarrow> Inr out)"

section \<open>The two passes of \<^verbatim>\<open>main\<close>\<close>

text \<open>\<^verbatim>\<open>if not sections\<close>: the parser returned \<^verbatim>\<open>None\<close> or an empty list.\<close>

definition no_sections :: "json list option \<Rightarrow> bool" where
  "no_sections sections = (case sections of None \<Rightarrow> True | Some secs \<Rightarrow> secs = [])"

subsection \<open>Pass 1: the union of the question titles\<close>

text \<open>Lines 425 to 428, on the variables \<^verbatim>\<open>union_titles\<close> and \<^verbatim>\<open>seen\<close>.\<close>

fun add_titles ::
  "string list \<Rightarrow> string list \<times> string fset \<Rightarrow> string list \<times> string fset" where
  "add_titles [] st = st"
| "add_titles (t # ts) (union_titles, seen) =
     (if t |\<notin>| seen then add_titles ts (union_titles @ [t], finsert t seen)
      else add_titles ts (union_titles, seen))"

text \<open>The loop of lines 416 to 428 over the rows that \<^verbatim>\<open>iter_rows\<close> yields.\<close>

fun pass1_rows ::
  "pylib \<Rightarrow> string option \<Rightarrow> string list option \<Rightarrow> string \<Rightarrow> row list
     \<Rightarrow> string list \<times> string fset \<Rightarrow> exn + (string list \<times> string fset)" where
  "pass1_rows lib title_col form_titles json_col [] st = Inr st"
| "pass1_rows lib title_col form_titles json_col (r # rs) st =
     (if \<not> should_keep_row r title_col form_titles
      then pass1_rows lib title_col form_titles json_col rs st
      else
        (case parse_json_sections lib (row_get r json_col) of
           Inl e \<Rightarrow> Inl e
         | Inr sections \<Rightarrow>
             if no_sections sections
             then pass1_rows lib title_col form_titles json_col rs st
             else
               (case collect_question_titles (case sections of None \<Rightarrow> [] | Some secs \<Rightarrow> secs) of
                  Inl e \<Rightarrow> Inl e
                | Inr titles \<Rightarrow>
                    pass1_rows lib title_col form_titles json_col rs (add_titles titles st))))"

definition pass1 ::
  "pylib \<Rightarrow> string option \<Rightarrow> string list option \<Rightarrow> string \<Rightarrow> row list \<Rightarrow> exn + string list" where
  "pass1 lib title_col form_titles json_col rows =
     (case pass1_rows lib title_col form_titles json_col rows ([], {||}) of
        Inl e \<Rightarrow> Inl e
      | Inr (union_titles, seen) \<Rightarrow> Inr union_titles)"

subsection \<open>Pass 2: one output row per kept row\<close>

type_synonym out_row = "string \<rightharpoonup> string"

text \<open>\<^verbatim>\<open>{c: (r.get(c, "") or "") for c in meta_cols}\<close>.\<close>

definition meta_row :: "string list \<Rightarrow> row \<Rightarrow> out_row" where
  "meta_row meta_cols r =
     foldl (\<lambda>m c. m(c \<mapsto> (case r c of None \<Rightarrow> [] | Some v \<Rightarrow> v))) Map.empty meta_cols"

text \<open>Lines 444 and 445.\<close>

definition fill_na :: "string list \<Rightarrow> out_row \<Rightarrow> out_row" where
  "fill_na union_titles out = foldl (\<lambda>m t. m(t \<mapsto> ''(N/A)'')) out union_titles"

text \<open>Lines 451 to 461.\<close>

definition fill_answers :: "qmap \<Rightarrow> string list \<Rightarrow> out_row \<Rightarrow> out_row" where
  "fill_answers qm union_titles out =
     foldl (\<lambda>m t.
        (case qm t of
           None \<Rightarrow> m(t \<mapsto> ''(N/A)'')
         | Some answers \<Rightarrow>
             if answers = []
             then m(t \<mapsto> (if t = ''Signature'' then ''not signed'' else ''(NoResponse)''))
             else m(t \<mapsto> join ''; '' answers)))
       out union_titles"

text \<open>Lines 440 to 463: the dict handed to \<^verbatim>\<open>writer.writerow\<close> for a kept row.\<close>

definition emit_row ::
  "pylib \<Rightarrow> string \<Rightarrow> string list \<Rightarrow> string list \<Rightarrow> string list \<Rightarrow> row \<Rightarrow> exn + out_row" where
  "emit_row lib json_col meta_cols other_interested_keys union_titles r =
     (case parse_json_sections lib (row_get r json_col) of
        Inl e \<Rightarrow> Inl e
      | Inr sections \<Rightarrow>
          if no_sections sections then Inr (fill_na union_titles (meta_row meta_cols r))
          else
            (case flatten_questions lib (case sections of None \<Rightarrow> [] | Some secs \<Rightarrow> secs)
                    other_interested_keys of
               Inl e \<Rightarrow> Inl e
             | Inr qm \<Rightarrow> Inr (fill_answers qm union_titles (meta_row meta_cols r))))"

text \<open>The loop of lines 436 to 463; the result is the list of the rows written, in order.\<close>

fun pass2 ::
  "pylib \<Rightarrow> string option \<Rightarrow> string list option \<Rightarrow> string \<Rightarrow> string list \<Rightarrow> string list
     \<Rightarrow> string list \<Rightarrow> row list \<Rightarrow> exn + out_row list" where
  "pass2 lib title_col form_titles json_col meta_cols keys union_titles [] = Inr []"
| "pass2 lib title_col form_titles json_col meta_cols keys union_titles (r # rs) =
     (if \<not> should_keep_row r title_col form_titles
      then pass2 lib title_col form_titles json_col meta_cols keys union_titles rs
      else
        (case emit_row lib json_col meta_cols keys union_titles r of
           Inl e \<Rightarrow> Inl e
         | Inr out \<Rightarrow>
             (case pass2 lib title_col form_titles json_col meta_cols keys union_titles rs of
                Inl e \<Rightarrow> Inl e
              | Inr outs \<Rightarrow> Inr (out # outs))))"

text \<open>
  \<^verbatim>\<open>main\<close> from line 377 on, with the columns it resolved from the configuration and
  the header (\<^verbatim>\<open>title_col\<close>, \<^verbatim>\<open>json_col\<close>, \<^verbatim>\<open>meta_cols\<close>, \<^verbatim>\<open>other_interested_keys\<close>)
  and the rows of the input file given: the header of the output and its data rows.
\<close>

definition main_passes ::
  "pylib \<Rightarrow> (string \<times> json) list \<Rightarrow> string option \<Rightarrow> string \<Rightarrow> string list \<Rightarrow> string list
     \<Rightarrow> row list \<Rightarrow> exn + (string list \<times> out_row list)" where
  "main_passes lib cfg title_col json_col meta_cols keys rows =
     (case main_form_titles cfg of
        Inl e \<Rightarrow> Inl e
      | Inr form_titles \<Rightarrow>
          (case pass1 lib title_col (Some form_titles) json_col rows of
             Inl e \<Rightarrow> Inl e
           | Inr union_titles \<Rightarrow>
               (case pass2 lib title_col (Some form_titles) json_col meta_cols keys
                       union_titles rows of
                  Inl e \<Rightarrow> Inl e
                | Inr outs \<Rightarrow> Inr (meta_cols @ union_titles, outs))))"

section \<open>Which question a title belongs to\<close>

text \<open>
  \<^verbatim>\<open>collect_question_titles\<close> returns the final titles only. To say which question a title
  was given to, \<open>titled_questions\<close> runs the same loop and records each question beside its
  final title; \<open>collect_question_titles_titled\<close> below shows that its titles are those of
  \<^verbatim>\<open>collect_question_titles\<close>, exception for exception.
\<close>

definition title_question ::
  "json \<Rightarrow> (string \<times> json) list \<times> string fset
     \<Rightarrow> exn + ((string \<times> json) list \<times> string fset)" where
  "title_question q st =
     (case st of (titled, seen) \<Rightarrow>
        (case norm_field q ''type'' of
           Inl e \<Rightarrow> Inl e
         | Inr qtype \<Rightarrow>
             if qtype = ''Statement'' then Inr (titled, seen)
             else
               (case norm_field q ''title'' of
                  Inl e \<Rightarrow> Inl e
                | Inr base_title \<Rightarrow>
                    (case unique_title base_title q seen of
                       Inl e \<Rightarrow> Inl e
                     | Inr (final_title, seen') \<Rightarrow>
                         Inr (titled @ [(final_title, q)], finsert final_title seen')))))"

fun title_questions ::
  "json list \<Rightarrow> (string \<times> json) list \<times> string fset
     \<Rightarrow> exn + ((string \<times> json) list \<times> string fset)" where
  "title_questions [] st = Inr st"
| "title_questions (q # qs) st =
     (case title_question q st of Inl e \<Rightarrow> Inl e | Inr st' \<Rightarrow> title_questions qs st')"

fun title_sections ::
  "json list \<Rightarrow> (string \<times> json) list \<times> string fset
     \<Rightarrow> exn + ((string \<times> json) list \<times> string fset)" where
  "title_sections [] st = Inr st"
| "title_sections (sec # secs) st =
     (case questions_of sec of
        Inl e \<Rightarrow> Inl e
      | Inr qs \<Rightarrow>
          (case title_questions qs st of
             Inl e \<Rightarrow> Inl e
           | Inr st' \<Rightarrow> title_sections secs st'))"

definition titled_questions :: "json list \<Rightarrow> exn + (string \<times> json) list" where
  "titled_questions sections =
     (case title_sections sections ([], {||}) of
        Inl e \<Rightarrow> Inl e
      | Inr (titled, seen) \<Rightarrow> Inr titled)"

text \<open>The titles given to questions that are not hidden.\<close>

definition visible_titles :: "(string \<times> json) list \<Rightarrow> string set" where
  "visible_titles titled = {t. \<exists>q. (t, q) \<in> set titled \<and> \<not> is_hidden q}"

text \<open>The state of \<open>title_questions\<close> seen as a state of \<open>collect_questions\<close>.\<close>

definition drop_questions ::
  "(string \<times> json) list \<times> string fset \<Rightarrow> string list \<times> string fset" where
  "drop_questions st = (map fst (fst st), snd st)"

text \<open>The invariant of the loops of \<^verbatim>\<open>collect_question_titles\<close>: the titles so far are pairwise
  different and all in \<^verbatim>\<open>seen\<close>.\<close>

definition titles_inv :: "string list \<times> string fset \<Rightarrow> bool" where
  "titles_inv st = (distinct (fst st) \<and> set (fst st) \<subseteq> fset (snd st))"

text \<open>The invariant that ties the loops of \<^verbatim>\<open>flatten_questions\<close> to those of
  \<open>titled_questions\<close>: the same \<^verbatim>\<open>seen\<close>, and the keys of \<^verbatim>\<open>out\<close> are the titles given to
  questions that are not hidden.\<close>

definition answers_inv ::
  "qmap \<times> string fset \<Rightarrow> (string \<times> json) list \<times> string fset \<Rightarrow> bool" where
  "answers_inv st gst = (dom (fst st) = visible_titles (fst gst) \<and> snd st = snd gst)"

section \<open>The titles one row adds in pass 1\<close>

text \<open>What the body of the pass-1 loop hands to the lines 425 to 428 for one row: nothing
  for a row that is filtered out or has no sections, else the row's titles.
  \<open>pass1_rows_Cons\<close> below shows that the loop is this followed by \<open>add_titles\<close>.\<close>

definition row_titles ::
  "pylib \<Rightarrow> string option \<Rightarrow> string list option \<Rightarrow> string \<Rightarrow> row \<Rightarrow> exn + string list" where
  "row_titles lib title_col form_titles json_col r =
     (if \<not> should_keep_row r title_col form_titles then Inr []
      else
        (case parse_json_sections lib (row_get r json_col) of
           Inl e \<Rightarrow> Inl e
         | Inr sections \<Rightarrow>
             if no_sections sections then Inr []
             else collect_question_titles (case sections of None \<Rightarrow> [] | Some secs \<Rightarrow> secs)))"

section \<open>Payloads that differ in \<^verbatim>\<open>shown\<close> only\<close>

text \<open>Two questions that give the same value under every key but \<^verbatim>\<open>shown\<close>, and two lists
  of sections whose questions correspond in that way, one by one.\<close>

definition same_but_shown :: "json \<Rightarrow> json \<Rightarrow> bool" where
  "same_but_shown q q' = (\<forall>k. k \<noteq> ''shown'' \<longrightarrow> py_get q' k = py_get q k)"

definition sections_same_but_shown :: "json list \<Rightarrow> json list \<Rightarrow> bool" where
  "sections_same_but_shown secs secs' =
     list_all2 (\<lambda>sec sec'.
        (case (questions_of sec, questions_of sec') of
           (Inr qs, Inr qs') \<Rightarrow> list_all2 same_but_shown qs qs'
         | (Inl e, Inl e') \<Rightarrow> e = e'
         | _ \<Rightarrow> False)) secs secs'"

section \<open>Library functions and data for the examples\<close>

text \<open>
  For the closed examples below \<^verbatim>\<open>json.loads\<close> is a table of the texts it decodes; on every
  text an example hands to it that is not in the table the real function raises
  \<^verbatim>\<open>JSONDecodeError\<close>. The texts of the examples hold no HTML entity, so \<^verbatim>\<open>html.unescape\<close>
  returns them as they are, and no example takes \<^verbatim>\<open>str\<close> of a float, a list or a dict.
\<close>

definition sample_lib :: "(string \<times> json) list \<Rightarrow> pylib" where
  "sample_lib tbl =
     \<lparr> json_loads = (\<lambda>s. case map_of tbl s of None \<Rightarrow> Inl JSONDecodeError | Some v \<Rightarrow> Inr v),
       html_unescape = (\<lambda>s. s),
       repr_other = (\<lambda>v. []) \<rparr>"

text \<open>
  An intake form with four questions, of which the first is hidden and the second and the
  fourth were left blank, the text of its payload, and an input row that carries it.
\<close>

definition q_allergies :: json where
  "q_allergies = JObj [(''type'', JStr ''Short answer''), (''title'', JStr ''Allergies''),
     (''answerText'', JStr ''none'')]"

definition q_allergies_hidden :: json where
  "q_allergies_hidden = JObj [(''type'', JStr ''Short answer''), (''title'', JStr ''Allergies''),
     (''shown'', JBool False), (''answerText'', JStr ''none'')]"

definition q_notes :: json where
  "q_notes = JObj [(''type'', JStr ''Paragraph''), (''title'', JStr ''Notes'')]"

definition q_dob :: json where
  "q_dob = JObj [(''type'', JStr ''Date of birth''), (''title'', JStr ''DOB''),
     (''birthYear'', JInt 1990), (''birthMonth'', JInt 0), (''birthDay'', JInt 15)]"

definition q_blank_signature :: json where
  "q_blank_signature = JObj [(''type'', JStr ''Short answer''), (''title'', JStr ''Signature'')]"

definition form_text :: string where
  \<open>form_text = ''[{"questions": [{"type": "Short answer", "title": "Allergies", "shown": false, "answerText": "none"}, {"type": "Paragraph", "title": "Notes"}, {"type": "Date of birth", "title": "DOB", "birthYear": 1990, "birthMonth": 0, "birthDay": 15}, {"type": "Short answer", "title": "Signature"}]}]''\<close>

definition form_sections :: "json list" where
  "form_sections =
     [JObj [(''questions'', JList [q_allergies_hidden, q_notes, q_dob, q_blank_signature])]]"

definition form_lib :: pylib where
  "form_lib = sample_lib [(form_text, JList form_sections), (''[1]'', JList [JInt 1])]"

definition form_row :: row where
  "form_row = [''Client Name'' \<mapsto> ''Ann'', ''Title'' \<mapsto> ''Intake'', ''Json'' \<mapsto> form_text]"

text \<open>Three more rows: one whose payload is not JSON, one of another form, and one whose
  payload is the JSON list \<^verbatim>\<open>[1]\<close>, which is not a list of sections.\<close>

definition unparsed_row :: row where
  "unparsed_row = [''Client Name'' \<mapsto> ''Bob'', ''Title'' \<mapsto> ''Intake'', ''Json'' \<mapsto> ''not json'']"

definition consent_row :: row where
  "consent_row = [''Client Name'' \<mapsto> ''Cy'', ''Title'' \<mapsto> ''Consent'', ''Json'' \<mapsto> ''[1]'']"

definition bad_row :: row where
  "bad_row = [''Title'' \<mapsto> ''Intake'', ''Json'' \<mapsto> ''[1]'']"

section \<open>The row filter when no title restriction is configured\<close>

text \<open>
  C1. With \<^verbatim>\<open>form_titles\<close> absent from the configuration, or an empty list, \<^verbatim>\<open>main\<close> hands
  the empty list (not \<^verbatim>\<open>None\<close>) to \<^verbatim>\<open>should_keep_row\<close>, which then keeps no row at all,
  whatever the row and the title column are: the opposite of "no filtering".
\<close>

theorem should_keep_row_without_form_titles:
  "main_form_titles [] = Inr []
   \<and> main_form_titles [(''form_titles'', JList [])] = Inr []
   \<and> \<not> should_keep_row r title_col (Some [])
   \<and> should_keep_row r title_col None"
  by (simp add: main_form_titles_def should_keep_row_def split: option.splits)

section \<open>The retry of the payload parser\<close>

text \<open>The retry as the specification words it: after any failure of the first parse, one
  layer of surrounding quote characters is removed (one leading, one trailing).\<close>

definition strip_one_quote_layer :: "string \<Rightarrow> string" where
  "strip_one_quote_layer s =
     (let s1 = (case s of [] \<Rightarrow> [] | c # cs \<Rightarrow> if c = CHR 0x22 then cs else s)
      in if s1 \<noteq> [] \<and> last s1 = CHR 0x22 then butlast s1 else s1)"

definition parse_json_sections_one_layer :: "pylib \<Rightarrow> json \<Rightarrow> exn + json list option" where
  "parse_json_sections_one_layer lib cell =
     (case cell of
        JStr c \<Rightarrow>
          (let s = py_strip c in
           if s = [] then Inr None
           else if \<not> starts_bracket s then Inr None
           else
             (case json_loads lib s of
                Inr obj \<Rightarrow> Inr (sections_of obj)
              | Inl _ \<Rightarrow>
                  (case json_loads lib (strip_one_quote_layer s) of
                     Inr obj \<Rightarrow> Inr (sections_of obj)
                   | Inl _ \<Rightarrow> Inr None)))
      | _ \<Rightarrow> Inr None)"

text \<open>
  C4, as stated, fails: on the cell \<^verbatim>\<open>[{}]""\<close> the first parse raises (extra data), and the
  script parses \<^verbatim>\<open>[{}]\<close>, both trailing quotes removed, and returns the list; with one
  layer removed the second parse would be of \<^verbatim>\<open>[{}]"\<close> and the result absent.
\<close>

theorem parse_json_sections_one_layer_counterexample:
  \<open>parse_json_sections (sample_lib [(''[{}]'', JList [JObj []])]) (JStr ''[{}]""'')
     = Inr (Some [JObj []])
   \<and> parse_json_sections_one_layer (sample_lib [(''[{}]'', JList [JObj []])]) (JStr ''[{}]""'')
     = Inr None\<close>
  by (simp add: parse_json_sections_def parse_json_sections_one_layer_def sample_lib_def
      py_strip_def strip_with_def is_space_def starts_bracket_def strip_quotes_def
      strip_one_quote_layer_def sections_of_def)

text \<open>
  C4, amended. \<^verbatim>\<open>parse_json_sections\<close> never raises, whatever \<^verbatim>\<open>json.loads\<close> does. It
  returns \<^verbatim>\<open>None\<close> for a cell that is not a string, for a string that is empty after
  trimming and for one that does not start with a bracket or a brace. Its result depends
  on \<^verbatim>\<open>json.loads\<close> at two texts only, the trimmed cell and the trimmed cell without its
  leading and trailing quote characters (all of them): when the first parse raises
  \<^verbatim>\<open>JSONDecodeError\<close> the result is that of the second parse, \<^verbatim>\<open>None\<close> if it raises too;
  when the first parse raises anything else the result is \<^verbatim>\<open>None\<close>.
\<close>

theorem parse_json_sections_never_raises:
  "(\<exists>res. parse_json_sections lib cell = Inr res)
   \<and> ((\<forall>c. cell \<noteq> JStr c) \<longrightarrow> parse_json_sections lib cell = Inr None)
   \<and> (py_strip c = [] \<longrightarrow> parse_json_sections lib (JStr c) = Inr None)
   \<and> (\<not> starts_bracket (py_strip c) \<longrightarrow> parse_json_sections lib (JStr c) = Inr None)
   \<and> (json_loads lib' (py_strip c) = json_loads lib (py_strip c)
       \<and> json_loads lib' (strip_quotes (py_strip c)) = json_loads lib (strip_quotes (py_strip c))
       \<longrightarrow> parse_json_sections lib' (JStr c) = parse_json_sections lib (JStr c))
   \<and> (starts_bracket (py_strip c) \<and> json_loads lib (py_strip c) = Inl JSONDecodeError
       \<longrightarrow> parse_json_sections lib (JStr c)
           = (case json_loads lib (strip_quotes (py_strip c)) of
                Inr obj \<Rightarrow> Inr (sections_of obj)
              | Inl e' \<Rightarrow> Inr None))
   \<and> (json_loads lib (py_strip c) = Inl e \<and> e \<noteq> JSONDecodeError
       \<longrightarrow> parse_json_sections lib (JStr c) = Inr None)"
proof (intro conjI impI)
  show "\<exists>res. parse_json_sections lib cell = Inr res"
    by (simp add: parse_json_sections_def Let_def split: json.splits sum.splits exn.splits)
next
  assume "\<forall>c. cell \<noteq> JStr c"
  then show "parse_json_sections lib cell = Inr None"
    by (cases cell) (simp_all add: parse_json_sections_def)
next
  assume "py_strip c = []"
  then show "parse_json_sections lib (JStr c) = Inr None"
    by (simp add: parse_json_sections_def)
next
  assume "\<not> starts_bracket (py_strip c)"
  then show "parse_json_sections lib (JStr c) = Inr None"
    by (simp add: parse_json_sections_def Let_def)
next
  assume "json_loads lib' (py_strip c) = json_loads lib (py_strip c)
       \<and> json_loads lib' (strip_quotes (py_strip c)) = json_loads lib (strip_quotes (py_strip c))"
  then show "parse_json_sections lib' (JStr c) = parse_json_sections lib (JStr c)"
    by (simp add: parse_json_sections_def Let_def split: sum.splits exn.splits)
next
  assume "starts_bracket (py_strip c) \<and> json_loads lib (py_strip c) = Inl JSONDecodeError"
  then show "parse_json_sections lib (JStr c)
           = (case json_loads lib (strip_quotes (py_strip c)) of
                Inr obj \<Rightarrow> Inr (sections_of obj)
              | Inl e' \<Rightarrow> Inr None)"
    by (auto simp: parse_json_sections_def starts_bracket_def Let_def split: sum.splits)
next
  assume "json_loads lib (py_strip c) = Inl e \<and> e \<noteq> JSONDecodeError"
  then show "parse_json_sections lib (JStr c) = Inr None"
    by (cases e) (simp_all add: parse_json_sections_def Let_def)
qed

text \<open>The theorem at five cells: a number, blanks, text without a bracket, the cell of the
  counterexample, and a text that neither parse accepts.\<close>

theorem parse_json_sections_never_raises_witness:
  \<open>parse_json_sections (sample_lib [(''[{}]'', JList [JObj []])]) (JInt 3) = Inr None
   \<and> parse_json_sections (sample_lib [(''[{}]'', JList [JObj []])]) (JStr ''   '') = Inr None
   \<and> parse_json_sections (sample_lib [(''[{}]'', JList [JObj []])]) (JStr ''not json'') = Inr None
   \<and> parse_json_sections (sample_lib [(''[{}]'', JList [JObj []])]) (JStr ''[{}]""'')
       = Inr (Some [JObj []])
   \<and> parse_json_sections (sample_lib [(''[{}]'', JList [JObj []])]) (JStr ''[oops'') = Inr None\<close>
proof -
  let ?L = "sample_lib [(''[{}]'', JList [JObj []])]"
  have s1: "py_strip ''   '' = []"
    and s2: "py_strip ''not json'' = ''not json''"
    and s3: \<open>py_strip ''[{}]""'' = ''[{}]""''\<close>
    and s4: "py_strip ''[oops'' = ''[oops''"
    by (simp_all add: py_strip_def strip_with_def is_space_def)
  have q3: \<open>strip_quotes ''[{}]""'' = ''[{}]''\<close>
    and q4: "strip_quotes ''[oops'' = ''[oops''"
    by (simp_all add: strip_quotes_def strip_with_def)
  have a: "parse_json_sections ?L (JInt 3) = Inr None"
    using parse_json_sections_never_raises [of ?L "JInt 3"] by simp
  have b: "parse_json_sections ?L (JStr ''   '') = Inr None"
    using parse_json_sections_never_raises [of ?L _ "''   ''"] s1 by simp
  have c: "parse_json_sections ?L (JStr ''not json'') = Inr None"
    using parse_json_sections_never_raises [of ?L _ "''not json''"] s2 by (simp add: starts_bracket_def)
  have d: \<open>parse_json_sections ?L (JStr ''[{}]""'') = Inr (Some [JObj []])\<close>
    using parse_json_sections_never_raises [of ?L _ \<open>''[{}]""''\<close>] s3 q3
    by (simp add: starts_bracket_def sample_lib_def sections_of_def)
  have e: "parse_json_sections ?L (JStr ''[oops'') = Inr None"
    using parse_json_sections_never_raises [of ?L _ "''[oops''"] s4 q4
    by (simp add: starts_bracket_def sample_lib_def)
  from a b c d e show ?thesis by simp
qed

section \<open>The title deduplicator and the title loops\<close>

subsection \<open>The suffix loop\<close>

lemma suffix_loop_fresh: "suffix_loop candidate seen final k |\<notin>| seen"
  by (induction candidate seen final k rule: suffix_loop.induct)
     (subst suffix_loop.simps, simp)

lemma suffix_loop_unseen: "final |\<notin>| seen \<Longrightarrow> suffix_loop candidate seen final k = final"
  by (subst suffix_loop.simps) simp

lemma suffix_loop_least:
  "final |\<in>| seen \<Longrightarrow>
     \<exists>j\<ge>k. suffix_loop candidate seen final k = suffixed candidate j
       \<and> (\<forall>i. k \<le> i \<and> i < j \<longrightarrow> suffixed candidate i |\<in>| seen)"
proof (induction candidate seen final k rule: suffix_loop.induct)
  case (1 candidate seen final k)
  show ?case
  proof (cases "suffixed candidate k |\<in>| seen")
    case True
    from "1.IH" [OF "1.prems" True] obtain j where j: "k + 1 \<le> j"
      "suffix_loop candidate seen (suffixed candidate k) (k + 1) = suffixed candidate j"
      "\<forall>i. k + 1 \<le> i \<and> i < j \<longrightarrow> suffixed candidate i |\<in>| seen"
      by blast
    have "suffix_loop candidate seen final k = suffixed candidate j"
      using "1.prems" j(2) by (subst suffix_loop.simps) simp
    moreover have "\<forall>i. k \<le> i \<and> i < j \<longrightarrow> suffixed candidate i |\<in>| seen"
    proof (intro allI impI)
      fix i assume "k \<le> i \<and> i < j"
      then have "i = k \<or> (k + 1 \<le> i \<and> i < j)" by arith
      then show "suffixed candidate i |\<in>| seen" using True j(3) by blast
    qed
    moreover have "k \<le> j" using j(1) by simp
    ultimately show ?thesis by blast
  next
    case False
    have "suffix_loop candidate seen final k = suffixed candidate k"
      using "1.prems" False
      by (subst suffix_loop.simps, simp, subst suffix_loop.simps, simp)
    then show ?thesis by auto
  qed
qed



subsection \<open>Titles with their questions\<close>

lemma collect_question_titled:
  "collect_question q (drop_questions st)
     = (case title_question q st of Inl e \<Rightarrow> Inl e | Inr st' \<Rightarrow> Inr (drop_questions st'))"
  by (cases st)
     (simp add: collect_question_def title_question_def drop_questions_def
        split: sum.splits prod.splits)

lemma collect_questions_titled:
  "collect_questions qs (drop_questions st)
     = (case title_questions qs st of Inl e \<Rightarrow> Inl e | Inr st' \<Rightarrow> Inr (drop_questions st'))"
proof (induction qs arbitrary: st)
  case Nil
  then show ?case by simp
next
  case (Cons q qs)
  show ?case
  proof (cases "title_question q st")
    case (Inl e)
    then show ?thesis by (simp add: collect_question_titled)
  next
    case (Inr st')
    then show ?thesis using Cons.IH [of st'] by (simp add: collect_question_titled)
  qed
qed

lemma collect_sections_titled:
  "collect_sections secs (drop_questions st)
     = (case title_sections secs st of Inl e \<Rightarrow> Inl e | Inr st' \<Rightarrow> Inr (drop_questions st'))"
proof (induction secs arbitrary: st)
  case Nil
  then show ?case by simp
next
  case (Cons sec secs)
  show ?case
  proof (cases "questions_of sec")
    case (Inl e)
    then show ?thesis by simp
  next
    case qs: (Inr qs)
    show ?thesis
    proof (cases "title_questions qs st")
      case (Inl e)
      then show ?thesis using qs by (simp add: collect_questions_titled)
    next
      case (Inr st')
      then show ?thesis using qs Cons.IH [of st'] by (simp add: collect_questions_titled)
    qed
  qed
qed

lemma collect_question_titles_titled:
  "collect_question_titles sections
     = (case titled_questions sections of Inl e \<Rightarrow> Inl e | Inr titled \<Rightarrow> Inr (map fst titled))"
  using collect_sections_titled [of sections "([], {||})"]
  by (simp add: collect_question_titles_def titled_questions_def drop_questions_def
      split: sum.splits prod.splits)

subsection \<open>The titles of a row are pairwise different\<close>





subsection \<open>The keys of the answer map\<close>

lemma dom_setdefault_empty: "dom (setdefault_empty out k) = insert k (dom out)"
  by (auto simp: setdefault_empty_def split: option.splits)

lemma dom_append_answer: "dom (append_answer out k a) = insert k (dom out)"
  by (simp add: append_answer_def)

lemma visible_titles_snoc:
  "visible_titles (titled @ [(t, q)])
     = (if is_hidden q then visible_titles titled else insert t (visible_titles titled))"
  by (auto simp: visible_titles_def)

lemma flatten_question_titled:
  assumes "flatten_question lib keys q st = Inr st'" and "answers_inv st gst"
  shows "\<exists>gst'. title_question q gst = Inr gst' \<and> answers_inv st' gst'"
proof -
  obtain out seen where st: "st = (out, seen)" by (cases st)
  obtain titled gseen where gst: "gst = (titled, gseen)" by (cases gst)
  from assms(2) have eq: "gseen = seen" and d: "dom out = visible_titles titled"
    by (simp_all add: answers_inv_def st gst)
  note f = assms(1) [unfolded st flatten_question_def, simplified]
  from f obtain qtype where ty: "norm_field q ''type'' = Inr qtype"
    by (auto split: sum.splits)
  show ?thesis
  proof (cases "qtype = ''Statement''")
    case True
    with f ty have "st' = (out, seen)" by simp
    with True ty d show ?thesis
      by (simp add: title_question_def gst eq answers_inv_def)
  next
    case False
    with f ty obtain base t seen1 where ti: "norm_field q ''title'' = Inr base"
      and u: "unique_title base q seen = Inr (t, seen1)"
      by (auto split: sum.splits)
    have g: "title_question q gst = Inr (titled @ [(t, q)], finsert t seen1)"
      using ty False ti u by (simp add: title_question_def gst eq)
    show ?thesis
    proof (cases "is_hidden q")
      case True
      with f ty False ti u have "st' = (out, finsert t seen1)" by simp
      with g True d show ?thesis
        by (simp add: answers_inv_def visible_titles_snoc)
    next
      case vis: False
      with f ty False ti u obtain ans where "extract_answer lib q keys = Inr ans"
        and "st' = ((case ans of
                       None \<Rightarrow> setdefault_empty out t
                     | Some a \<Rightarrow>
                         if py_strip a \<noteq> [] then append_answer (setdefault_empty out t) t a
                         else setdefault_empty out t),
                    finsert t seen1)"
        by (auto simp: Let_def split: sum.splits)
      then have "snd st' = finsert t seen1" and "dom (fst st') = insert t (dom out)"
        by (simp_all add: Let_def dom_setdefault_empty dom_append_answer split: option.splits)
      with g vis d show ?thesis
        by (simp add: answers_inv_def visible_titles_snoc)
    qed
  qed
qed

lemma flatten_section_questions_titled:
  "flatten_section_questions lib keys qs st = Inr st' \<Longrightarrow> answers_inv st gst \<Longrightarrow>
     \<exists>gst'. title_questions qs gst = Inr gst' \<and> answers_inv st' gst'"
proof (induction qs arbitrary: st gst)
  case Nil
  then show ?case by simp
next
  case (Cons q qs)
  from Cons.prems(1) obtain st1 where s1: "flatten_question lib keys q st = Inr st1"
    and r1: "flatten_section_questions lib keys qs st1 = Inr st'"
    by (auto split: sum.splits)
  from flatten_question_titled [OF s1 Cons.prems(2)] obtain gst1
    where g1: "title_question q gst = Inr gst1" and i1: "answers_inv st1 gst1" by blast
  from Cons.IH [OF r1 i1] obtain gst' where "title_questions qs gst1 = Inr gst'"
    and "answers_inv st' gst'" by blast
  then show ?case using g1 by auto
qed

lemma flatten_sections_titled:
  "flatten_sections lib keys secs st = Inr st' \<Longrightarrow> answers_inv st gst \<Longrightarrow>
     \<exists>gst'. title_sections secs gst = Inr gst' \<and> answers_inv st' gst'"
proof (induction secs arbitrary: st gst)
  case Nil
  then show ?case by simp
next
  case (Cons sec secs)
  from Cons.prems(1) obtain qs st1 where q: "questions_of sec = Inr qs"
    and s1: "flatten_section_questions lib keys qs st = Inr st1"
    and r1: "flatten_sections lib keys secs st1 = Inr st'"
    by (auto split: sum.splits)
  from flatten_section_questions_titled [OF s1 Cons.prems(2)] obtain gst1
    where g1: "title_questions qs gst = Inr gst1" and i1: "answers_inv st1 gst1" by blast
  from Cons.IH [OF r1 i1] obtain gst' where "title_sections secs gst1 = Inr gst'"
    and "answers_inv st' gst'" by blast
  then show ?case using q g1 by auto
qed

lemma flatten_questions_titled:
  assumes "flatten_questions lib sections keys = Inr qm"
  shows "\<exists>titled. titled_questions sections = Inr titled \<and> dom qm = visible_titles titled"
proof -
  from assms obtain seen where
    f: "flatten_sections lib keys sections (Map.empty, {||}) = Inr (qm, seen)"
    by (auto simp: flatten_questions_def split: sum.splits prod.splits)
  have "answers_inv (Map.empty, {||}) ([], {||})"
    by (simp add: answers_inv_def visible_titles_def)
  from flatten_sections_titled [OF f this] obtain gst'
    where g: "title_sections sections ([], {||}) = Inr gst'" and i: "answers_inv (qm, seen) gst'"
    by blast
  then show ?thesis
    by (cases gst') (simp add: titled_questions_def answers_inv_def)
qed

subsection \<open>The cells of an output row\<close>

lemma fill_answers_at:
  "fill_answers qm union_titles out t
     = (if t \<in> set union_titles
        then Some (case qm t of
                     None \<Rightarrow> ''(N/A)''
                   | Some answers \<Rightarrow>
                       if answers = []
                       then (if t = ''Signature'' then ''not signed'' else ''(NoResponse)'')
                       else join ''; '' answers)
        else out t)"
  unfolding fill_answers_def
  by (induction union_titles arbitrary: out) (auto split: option.splits)

lemma fill_na_at:
  "fill_na union_titles out t = (if t \<in> set union_titles then Some ''(N/A)'' else out t)"
  unfolding fill_na_def
  by (induction union_titles arbitrary: out) auto

lemma meta_row_at:
  "meta_row meta_cols r c
     = (if c \<in> set meta_cols then Some (case r c of None \<Rightarrow> [] | Some v \<Rightarrow> v) else None)"
proof -
  have "foldl (\<lambda>m c. m(c \<mapsto> (case r c of None \<Rightarrow> [] | Some v \<Rightarrow> v))) m0 meta_cols c
     = (if c \<in> set meta_cols then Some (case r c of None \<Rightarrow> [] | Some v \<Rightarrow> v) else m0 c)"
    for m0
    by (induction meta_cols arbitrary: m0) auto
  then show ?thesis by (simp add: meta_row_def)
qed

section \<open>Title uniqueness within a row\<close>

text \<open>The definitions that the simplifier unfolds to run the title functions on a closed
  input.\<close>

lemmas eval_defs = collect_question_titles_def questions_of_def collect_question_def
      norm_field_def norm_title_def norm_title_str_def
      unique_title_def py_or_def py_strip_def strip_with_def is_space_def Let_def
      suffix_loop.simps suffixed_def str_nat.simps digit_char_def



section \<open>The naming rules of the title deduplicator\<close>

text \<open>
  C6. A non-empty base title that is not in \<^verbatim>\<open>seen\<close> is used as it is. Otherwise, for a
  question whose id is a string or a false value, the candidate is \<^verbatim>\<open>(untitled:<id>)\<close> with
  the trimmed id when the base title is empty and the trimmed id is not, \<^verbatim>\<open>(untitled)\<close> when
  both are empty, and the base title itself when it is not empty; the result is the
  candidate when it is not in \<^verbatim>\<open>seen\<close>, and else the candidate followed by \<^verbatim>\<open> #k\<close> for the
  least \<open>k \<ge> 2\<close> whose name is not in \<^verbatim>\<open>seen\<close>. Two questions titled \<^verbatim>\<open>Comment\<close> in one row
  are named \<^verbatim>\<open>Comment\<close> and \<^verbatim>\<open>Comment #2\<close>.
\<close>

theorem unique_title_rules:
  "(base \<noteq> [] \<and> base |\<notin>| seen \<longrightarrow> unique_title base q seen = Inr (base, finsert base seen))
   \<and> (\<not> (base \<noteq> [] \<and> base |\<notin>| seen)
       \<and> py_get q ''id'' = Inr v \<and> py_or v (JStr []) = JStr i
       \<and> candidate = (if base = []
                       then (if py_strip i \<noteq> [] then ''(untitled:'' @ py_strip i @ '')''
                             else ''(untitled)'')
                       else base)
       \<longrightarrow> (\<exists>t. unique_title base q seen = Inr (t, finsert t seen)
              \<and> (candidate |\<notin>| seen \<longrightarrow> t = candidate)
              \<and> (candidate |\<in>| seen
                   \<longrightarrow> (\<exists>k\<ge>2. t = candidate @ '' #'' @ str_nat k \<and> t |\<notin>| seen
                          \<and> (\<forall>j. 2 \<le> j \<and> j < k
                                \<longrightarrow> candidate @ '' #'' @ str_nat j |\<in>| seen)))))
   \<and> collect_question_titles
        [JObj [(''questions'', JList
           [JObj [(''type'', JStr ''Short answer''), (''title'', JStr ''Comment'')],
            JObj [(''type'', JStr ''Short answer''), (''title'', JStr ''Comment'')]])]]
       = Inr [''Comment'', ''Comment #2'']"
proof (intro conjI impI)
  assume "base \<noteq> [] \<and> base |\<notin>| seen"
  then show "unique_title base q seen = Inr (base, finsert base seen)"
    by (simp add: unique_title_def)
next
  assume a: "\<not> (base \<noteq> [] \<and> base |\<notin>| seen)
       \<and> py_get q ''id'' = Inr v \<and> py_or v (JStr []) = JStr i
       \<and> candidate = (if base = []
                       then (if py_strip i \<noteq> [] then ''(untitled:'' @ py_strip i @ '')''
                             else ''(untitled)'')
                       else base)"
  then have ne: "candidate \<noteq> []" by (auto split: if_splits)
  let ?t = "suffix_loop candidate seen candidate 2"
  have u: "unique_title base q seen = Inr (?t, finsert ?t seen)"
    using a ne by (auto simp: unique_title_def Let_def)
  have 1: "candidate |\<notin>| seen \<longrightarrow> ?t = candidate"
    by (simp add: suffix_loop_unseen)
  have 2: "candidate |\<in>| seen
     \<longrightarrow> (\<exists>k\<ge>2. ?t = candidate @ '' #'' @ str_nat k \<and> ?t |\<notin>| seen
            \<and> (\<forall>j. 2 \<le> j \<and> j < k \<longrightarrow> candidate @ '' #'' @ str_nat j |\<in>| seen))"
    using suffix_loop_least [of candidate seen 2 candidate] suffix_loop_fresh [of candidate seen candidate 2]
    by (auto simp: suffixed_def)
  from u 1 2 show "\<exists>t. unique_title base q seen = Inr (t, finsert t seen)
              \<and> (candidate |\<notin>| seen \<longrightarrow> t = candidate)
              \<and> (candidate |\<in>| seen
                   \<longrightarrow> (\<exists>k\<ge>2. t = candidate @ '' #'' @ str_nat k \<and> t |\<notin>| seen
                          \<and> (\<forall>j. 2 \<le> j \<and> j < k
                                \<longrightarrow> candidate @ '' #'' @ str_nat j |\<in>| seen)))"
    by blast
next
  show "collect_question_titles
        [JObj [(''questions'', JList
           [JObj [(''type'', JStr ''Short answer''), (''title'', JStr ''Comment'')],
            JObj [(''type'', JStr ''Short answer''), (''title'', JStr ''Comment'')]])]]
       = Inr [''Comment'', ''Comment #2'']"
    by (simp add: eval_defs)
qed

text \<open>The four rules at \<^verbatim>\<open>seen = {Comment}\<close>: a fresh title, an empty title with and without
  an id, and the title \<^verbatim>\<open>Comment\<close> again.\<close>

theorem unique_title_rules_witness:
  "unique_title ''Intake'' (JObj []) {|''Comment''|} = Inr (''Intake'', finsert ''Intake'' {|''Comment''|})
   \<and> unique_title [] (JObj [(''id'', JStr '' q7 '')]) {|''Comment''|}
       = Inr (''(untitled:q7)'', finsert ''(untitled:q7)'' {|''Comment''|})
   \<and> unique_title [] (JObj []) {|''Comment''|}
       = Inr (''(untitled)'', finsert ''(untitled)'' {|''Comment''|})
   \<and> unique_title ''Comment'' (JObj [(''id'', JStr ''q7'')]) {|''Comment''|}
       = Inr (''Comment #2'', finsert ''Comment #2'' {|''Comment''|})"
proof -
  let ?seen = "{|''Comment''|}"
  have a: "unique_title ''Intake'' (JObj []) ?seen = Inr (''Intake'', finsert ''Intake'' ?seen)"
    using unique_title_rules [of "''Intake''" ?seen "JObj []"] by simp
  have s: "py_strip '' q7 '' = ''q7''"
    by (simp add: py_strip_def strip_with_def is_space_def)
  have b: "unique_title [] (JObj [(''id'', JStr '' q7 '')]) ?seen
       = Inr (''(untitled:q7)'', finsert ''(untitled:q7)'' ?seen)"
    using unique_title_rules [of "[]" ?seen "JObj [(''id'', JStr '' q7 '')]" "JStr '' q7 ''"
        "'' q7 ''" "''(untitled:q7)''"] s
    by (auto simp: py_or_def)
  have s0: "py_strip [] = []"
    by (simp add: py_strip_def strip_with_def)
  have c: "unique_title [] (JObj []) ?seen = Inr (''(untitled)'', finsert ''(untitled)'' ?seen)"
    using unique_title_rules [of "[]" ?seen "JObj []" JNull "[]" "''(untitled)''"] s0
    by (auto simp: py_or_def)
  from unique_title_rules [of "''Comment''" ?seen "JObj [(''id'', JStr ''q7'')]" "JStr ''q7''"
        "''q7''" "''Comment''"]
  obtain t k where u: "unique_title ''Comment'' (JObj [(''id'', JStr ''q7'')]) ?seen
        = Inr (t, finsert t ?seen)"
    and k: "2 \<le> k" and t: "t = ''Comment'' @ '' #'' @ str_nat k"
    and least: "\<forall>j. 2 \<le> j \<and> j < k \<longrightarrow> ''Comment'' @ '' #'' @ str_nat j |\<in>| ?seen"
    by (auto simp: py_or_def)
  have "\<not> 2 < k"
  proof
    assume "2 < k"
    with least have "''Comment'' @ '' #'' @ str_nat 2 |\<in>| ?seen" by simp
    then show False by simp
  qed
  with k have "k = 2" by simp
  then have "t = ''Comment #2''" using t by (simp add: str_nat.simps digit_char_def)
  with u have d: "unique_title ''Comment'' (JObj [(''id'', JStr ''q7'')]) ?seen
       = Inr (''Comment #2'', finsert ''Comment #2'' ?seen)" by simp
  from a b c d show ?thesis by simp
qed

section \<open>The example form, evaluated\<close>

lemmas example_defs = q_allergies_def q_allergies_hidden_def q_notes_def q_dob_def
  q_blank_signature_def form_sections_def

lemmas answer_defs = flatten_questions_def flatten_question_def is_hidden_def
  extract_answer_def clean_field_def clean_text_def py_str_def nonempty_def
  setdefault_empty_def append_answer_def fmt_02d_def str_int_def

lemma form_titles_eval:
  "collect_question_titles form_sections = Inr [''Allergies'', ''Notes'', ''DOB'', ''Signature'']"
  by (simp add: example_defs eval_defs)

lemma form_titled_eval:
  "titled_questions form_sections
     = Inr [(''Allergies'', q_allergies_hidden), (''Notes'', q_notes), (''DOB'', q_dob),
            (''Signature'', q_blank_signature)]"
  unfolding titled_questions_def form_sections_def
  by (simp add: title_question_def example_defs eval_defs)

lemma form_flatten_eval:
  "flatten_questions form_lib form_sections []
     = Inr [''Notes'' \<mapsto> [], ''DOB'' \<mapsto> [''15/01/1990''], ''Signature'' \<mapsto> []]"
  by (simp add: example_defs eval_defs answer_defs)

lemma form_parse_eval:
  "parse_json_sections form_lib (row_get form_row ''Json'') = Inr (Some form_sections)"
  by (simp add: parse_json_sections_def row_get_def form_row_def form_lib_def sample_lib_def
      form_text_def py_strip_def strip_with_def is_space_def starts_bracket_def sections_of_def)

section \<open>Hidden questions\<close>

lemma collect_question_same_but_shown:
  assumes "same_but_shown q q'"
  shows "collect_question q' st = collect_question q st"
proof -
  from assms have "py_get q' ''type'' = py_get q ''type''"
    and "py_get q' ''title'' = py_get q ''title''"
    and "py_get q' ''id'' = py_get q ''id''"
    by (simp_all add: same_but_shown_def)
  then have eqs: "norm_field q' ''type'' = norm_field q ''type''"
    "norm_field q' ''title'' = norm_field q ''title''"
    "\<And>base seen. unique_title base q' seen = unique_title base q seen"
    by (simp_all add: norm_field_def unique_title_def)
  show ?thesis unfolding collect_question_def eqs by (rule refl)
qed

lemma collect_questions_same_but_shown:
  "list_all2 same_but_shown qs qs' \<Longrightarrow> collect_questions qs' st = collect_questions qs st"
proof (induction qs qs' arbitrary: st rule: list_all2_induct)
  case Nil
  then show ?case by simp
next
  case (Cons q qs q' qs')
  then show ?case
    by (simp add: collect_question_same_but_shown split: sum.splits)
qed

lemma collect_sections_same_but_shown:
  "sections_same_but_shown secs secs' \<Longrightarrow> collect_sections secs' st = collect_sections secs st"
  unfolding sections_same_but_shown_def
proof (induction secs secs' arbitrary: st rule: list_all2_induct)
  case Nil
  then show ?case by simp
next
  case (Cons sec secs sec' secs')
  show ?case
  proof (cases "questions_of sec")
    case (Inl e)
    with Cons.hyps(1) show ?thesis by (auto split: sum.splits)
  next
    case (Inr qs)
    with Cons.hyps(1) obtain qs' where q': "questions_of sec' = Inr qs'"
      and rel: "list_all2 same_but_shown qs qs'"
      by (auto split: sum.splits)
    show ?thesis
      using Inr q' Cons.IH collect_questions_same_but_shown [OF rel]
      by (simp split: sum.splits)
  qed
qed

lemma flatten_question_hidden:
  assumes "is_hidden q"
  shows "flatten_question lib keys q (out, seen)
     = (case collect_question q ([], seen) of
          Inl e \<Rightarrow> Inl e
        | Inr (titles, seen') \<Rightarrow> Inr (out, seen'))"
  using assms
  by (simp add: flatten_question_def collect_question_def split: sum.splits prod.splits)

text \<open>
  C7. \<^verbatim>\<open>collect_question_titles\<close> gives the same result (titles or exception) on two
  payloads that differ in the \<^verbatim>\<open>shown\<close> fields of their questions only: it never reads the
  field. For a question whose \<^verbatim>\<open>shown\<close> is exactly \<^verbatim>\<open>False\<close>, the loop body of
  \<^verbatim>\<open>flatten_questions\<close> does what the loop body of \<^verbatim>\<open>collect_question_titles\<close> does to
  \<^verbatim>\<open>seen\<close> and nothing else: the answer map is unchanged and \<^verbatim>\<open>extract_answer\<close> is not
  called. Such a question, when it is not a Statement, still adds its final title to the
  titles of pass 1.
\<close>

theorem hidden_question_title_registered:
  "(sections_same_but_shown sections sections'
      \<longrightarrow> collect_question_titles sections' = collect_question_titles sections)
   \<and> (is_hidden q
      \<longrightarrow> flatten_question lib keys q (out, seen)
          = (case collect_question q ([], seen) of
               Inl e \<Rightarrow> Inl e
             | Inr (titles, seen') \<Rightarrow> Inr (out, seen')))
   \<and> (is_hidden q \<and> norm_field q ''type'' = Inr qtype \<and> qtype \<noteq> ''Statement''
       \<and> collect_question q (titles, seen) = Inr (titles', seen')
      \<longrightarrow> (\<exists>t. titles' = titles @ [t] \<and> t |\<in>| seen'))"
proof (intro conjI impI)
  assume "sections_same_but_shown sections sections'"
  then show "collect_question_titles sections' = collect_question_titles sections"
    by (simp add: collect_question_titles_def collect_sections_same_but_shown)
next
  assume "is_hidden q"
  then show "flatten_question lib keys q (out, seen)
          = (case collect_question q ([], seen) of
               Inl e \<Rightarrow> Inl e
             | Inr (titles, seen') \<Rightarrow> Inr (out, seen'))"
    by (rule flatten_question_hidden)
next
  assume "is_hidden q \<and> norm_field q ''type'' = Inr qtype \<and> qtype \<noteq> ''Statement''
       \<and> collect_question q (titles, seen) = Inr (titles', seen')"
  then show "\<exists>t. titles' = titles @ [t] \<and> t |\<in>| seen'"
    by (auto simp: collect_question_def split: sum.splits)
qed

text \<open>The theorem at the question \<^verbatim>\<open>Allergies\<close>, hidden and not hidden.\<close>

theorem hidden_question_title_registered_witness:
  "sections_same_but_shown [JObj [(''questions'', JList [q_allergies])]]
       [JObj [(''questions'', JList [q_allergies_hidden])]]
   \<and> collect_question_titles [JObj [(''questions'', JList [q_allergies])]] = Inr [''Allergies'']
   \<and> collect_question_titles [JObj [(''questions'', JList [q_allergies_hidden])]]
       = Inr [''Allergies'']
   \<and> is_hidden q_allergies_hidden
   \<and> flatten_question form_lib [] q_allergies_hidden (Map.empty, {||})
       = Inr (Map.empty, {|''Allergies''|})"
proof -
  let ?A = "[JObj [(''questions'', JList [q_allergies])]]"
  let ?B = "[JObj [(''questions'', JList [q_allergies_hidden])]]"
  have rel: "sections_same_but_shown ?A ?B"
    by (simp add: sections_same_but_shown_def questions_of_def py_or_def same_but_shown_def
        q_allergies_def q_allergies_hidden_def)
  have a: "collect_question_titles ?A = Inr [''Allergies'']"
    by (simp add: example_defs eval_defs)
  have h: "is_hidden q_allergies_hidden"
    by (simp add: is_hidden_def q_allergies_hidden_def)
  have c: "collect_question q_allergies_hidden ([], {||}) = Inr ([''Allergies''], {|''Allergies''|})"
    by (simp add: example_defs eval_defs)
  note inst = hidden_question_title_registered [of ?A ?B q_allergies_hidden form_lib "[]" Map.empty "{||}"]
  from inst rel a have b: "collect_question_titles ?B = Inr [''Allergies'']" by simp
  from inst h c have f: "flatten_question form_lib [] q_allergies_hidden (Map.empty, {||})
       = Inr (Map.empty, {|''Allergies''|})" by simp
  from rel a b h f show ?thesis by simp
qed

text \<open>
  C10. For a question whose \<^verbatim>\<open>shown\<close> is exactly \<^verbatim>\<open>False\<close> the loop body of
  \<^verbatim>\<open>flatten_questions\<close> leaves the answer map as it was. The keys of the answer map of a row
  are exactly the final titles given to its questions that are not hidden; so a column of
  the union title list whose title the row gives to hidden questions only (or to none) is
  written as \<^verbatim>\<open>(N/A)\<close> by pass 2.
\<close>

theorem hidden_question_no_entry:
  "(is_hidden q \<and> flatten_question lib keys q (out, seen) = Inr (out', seen') \<longrightarrow> out' = out)
   \<and> (flatten_questions lib sections keys = Inr qm
      \<longrightarrow> (\<exists>titled. titled_questions sections = Inr titled
             \<and> collect_question_titles sections = Inr (map fst titled)
             \<and> dom qm = visible_titles titled))
   \<and> (parse_json_sections lib (row_get r json_col) = Inr (Some sections) \<and> sections \<noteq> []
       \<and> titled_questions sections = Inr titled
       \<and> (\<forall>q. (t, q) \<in> set titled \<longrightarrow> is_hidden q)
       \<and> t \<in> set union_titles
       \<and> emit_row lib json_col meta_cols keys union_titles r = Inr out_row
      \<longrightarrow> out_row t = Some ''(N/A)'')"
proof (intro conjI impI)
  assume "is_hidden q \<and> flatten_question lib keys q (out, seen) = Inr (out', seen')"
  then show "out' = out"
    by (auto simp: flatten_question_hidden split: sum.splits)
next
  assume "flatten_questions lib sections keys = Inr qm"
  from flatten_questions_titled [OF this] obtain titled'
    where g: "titled_questions sections = Inr titled'" and d: "dom qm = visible_titles titled'"
    by blast
  from g have "collect_question_titles sections = Inr (map fst titled')"
    by (simp add: collect_question_titles_titled)
  with g d show "\<exists>titled. titled_questions sections = Inr titled
             \<and> collect_question_titles sections = Inr (map fst titled)
             \<and> dom qm = visible_titles titled"
    by blast
next
  assume a: "parse_json_sections lib (row_get r json_col) = Inr (Some sections) \<and> sections \<noteq> []
       \<and> titled_questions sections = Inr titled
       \<and> (\<forall>q. (t, q) \<in> set titled \<longrightarrow> is_hidden q)
       \<and> t \<in> set union_titles
       \<and> emit_row lib json_col meta_cols keys union_titles r = Inr out_row"
  then obtain qm where f: "flatten_questions lib sections keys = Inr qm"
    and o: "out_row = fill_answers qm union_titles (meta_row meta_cols r)"
    by (auto simp: emit_row_def no_sections_def split: sum.splits)
  from flatten_questions_titled [OF f] a have "dom qm = visible_titles titled" by auto
  moreover from a have "t \<notin> visible_titles titled" by (auto simp: visible_titles_def)
  ultimately have "qm t = None" by blast
  with a o show "out_row t = Some ''(N/A)''" by (simp add: fill_answers_at)
qed

text \<open>The theorem at the example row: \<^verbatim>\<open>Allergies\<close> is hidden and written as \<^verbatim>\<open>(N/A)\<close>, where
  the blank \<^verbatim>\<open>Notes\<close> is written as \<^verbatim>\<open>(NoResponse)\<close>.\<close>

theorem hidden_question_no_entry_witness:
  "is_hidden q_allergies_hidden
   \<and> (''Allergies'', q_allergies_hidden) \<in> set [(''Allergies'', q_allergies_hidden),
        (''Notes'', q_notes), (''DOB'', q_dob), (''Signature'', q_blank_signature)]
   \<and> (\<exists>out_row. emit_row form_lib ''Json'' [''Client Name''] []
          [''Allergies'', ''Notes'', ''DOB'', ''Signature''] form_row = Inr out_row
        \<and> out_row ''Allergies'' = Some ''(N/A)''
        \<and> out_row ''Notes'' = Some ''(NoResponse)'')"
proof -
  let ?titled = "[(''Allergies'', q_allergies_hidden),
        (''Notes'', q_notes), (''DOB'', q_dob), (''Signature'', q_blank_signature)]"
  let ?union = "[''Allergies'', ''Notes'', ''DOB'', ''Signature'']"
  let ?qm = "[''Notes'' \<mapsto> [], ''DOB'' \<mapsto> [''15/01/1990''], ''Signature'' \<mapsto> []]"
  let ?out = "fill_answers ?qm ?union (meta_row [''Client Name''] form_row)"
  have h: "is_hidden q_allergies_hidden"
    by (simp add: is_hidden_def q_allergies_hidden_def)
  have ne: "form_sections \<noteq> []" by (simp add: form_sections_def)
  have e: "emit_row form_lib ''Json'' [''Client Name''] [] ?union form_row = Inr ?out"
    by (simp add: emit_row_def form_parse_eval form_flatten_eval no_sections_def ne)
  have only: "\<forall>q. (''Allergies'', q) \<in> set ?titled \<longrightarrow> is_hidden q"
    using h by simp
  from hidden_question_no_entry [where lib = form_lib and r = form_row and json_col = "''Json''"
      and sections = form_sections and titled = ?titled and t = "''Allergies''"
      and union_titles = ?union and meta_cols = "[''Client Name'']" and keys = "[]"
      and out_row = ?out]
    form_parse_eval ne form_titled_eval only e
  have na: "?out ''Allergies'' = Some ''(N/A)''" by simp
  have nr: "?out ''Notes'' = Some ''(NoResponse)''" by (simp add: fill_answers_at)
  from h e na nr show ?thesis by simp
qed

section \<open>The cells of an emitted row\<close>

lemma flatten_questions_Nil: "flatten_questions lib [] keys = Inr Map.empty"
  by (simp add: flatten_questions_def)

text \<open>
  C3. For a row whose payload parses and whose flattening returns the answer map \<open>qm\<close>,
  pass 2 writes a row in which the cell of every title \<open>t\<close> of the union title list is
  \<^verbatim>\<open>(N/A)\<close> when \<open>t\<close> is not a key of \<open>qm\<close>, \<^verbatim>\<open>not signed\<close> when its answer list is empty and
  \<open>t\<close> is \<^verbatim>\<open>Signature\<close>, \<^verbatim>\<open>(NoResponse)\<close> when the list is empty and \<open>t\<close> is another title, and
  the answers joined with \<^verbatim>\<open>; \<close> otherwise. A meta column that is not also a question title
  holds the value of the input row (the empty string when the row has none), and the row
  has a string for every header and for nothing else.
\<close>

theorem emitted_cells:
  "parse_json_sections lib (row_get r json_col) = Inr (Some sections)
   \<and> flatten_questions lib sections keys = Inr qm
   \<longrightarrow> (\<exists>out. emit_row lib json_col meta_cols keys union_titles r = Inr out
        \<and> (\<forall>t \<in> set union_titles.
              (qm t = None \<longrightarrow> out t = Some ''(N/A)'')
            \<and> (qm t = Some [] \<and> t = ''Signature'' \<longrightarrow> out t = Some ''not signed'')
            \<and> (qm t = Some [] \<and> t \<noteq> ''Signature'' \<longrightarrow> out t = Some ''(NoResponse)'')
            \<and> (\<forall>answers. qm t = Some answers \<and> answers \<noteq> []
                  \<longrightarrow> out t = Some (join ''; '' answers)))
        \<and> (\<forall>c \<in> set meta_cols. c \<notin> set union_titles
              \<longrightarrow> out c = Some (case r c of None \<Rightarrow> [] | Some v \<Rightarrow> v))
        \<and> dom out = set (meta_cols @ union_titles))"
proof (intro impI)
  assume a: "parse_json_sections lib (row_get r json_col) = Inr (Some sections)
   \<and> flatten_questions lib sections keys = Inr qm"
  let ?out = "fill_answers qm union_titles (meta_row meta_cols r)"
  have e: "emit_row lib json_col meta_cols keys union_titles r = Inr ?out"
  proof (cases "sections = []")
    case True
    with a have "qm = Map.empty" by (simp add: flatten_questions_Nil)
    then have "fill_na union_titles (meta_row meta_cols r) = ?out"
      by (auto simp: fill_na_at fill_answers_at)
    with a True show ?thesis by (simp add: emit_row_def no_sections_def)
  next
    case False
    with a show ?thesis by (simp add: emit_row_def no_sections_def)
  qed
  have cells: "\<forall>t \<in> set union_titles.
              (qm t = None \<longrightarrow> ?out t = Some ''(N/A)'')
            \<and> (qm t = Some [] \<and> t = ''Signature'' \<longrightarrow> ?out t = Some ''not signed'')
            \<and> (qm t = Some [] \<and> t \<noteq> ''Signature'' \<longrightarrow> ?out t = Some ''(NoResponse)'')
            \<and> (\<forall>answers. qm t = Some answers \<and> answers \<noteq> []
                  \<longrightarrow> ?out t = Some (join ''; '' answers))"
    by (simp add: fill_answers_at)
  have meta: "\<forall>c \<in> set meta_cols. c \<notin> set union_titles
              \<longrightarrow> ?out c = Some (case r c of None \<Rightarrow> [] | Some v \<Rightarrow> v)"
    by (simp add: fill_answers_at meta_row_at)
  have d: "dom ?out = set (meta_cols @ union_titles)"
    by (auto simp: fill_answers_at meta_row_at dom_def split: if_splits)
  from e cells meta d show "\<exists>out. emit_row lib json_col meta_cols keys union_titles r = Inr out
        \<and> (\<forall>t \<in> set union_titles.
              (qm t = None \<longrightarrow> out t = Some ''(N/A)'')
            \<and> (qm t = Some [] \<and> t = ''Signature'' \<longrightarrow> out t = Some ''not signed'')
            \<and> (qm t = Some [] \<and> t \<noteq> ''Signature'' \<longrightarrow> out t = Some ''(NoResponse)'')
            \<and> (\<forall>answers. qm t = Some answers \<and> answers \<noteq> []
                  \<longrightarrow> out t = Some (join ''; '' answers)))
        \<and> (\<forall>c \<in> set meta_cols. c \<notin> set union_titles
              \<longrightarrow> out c = Some (case r c of None \<Rightarrow> [] | Some v \<Rightarrow> v))
        \<and> dom out = set (meta_cols @ union_titles)"
    by blast
qed

text \<open>The theorem at the example row, with one cell of each kind.\<close>

theorem emitted_cells_witness:
  "parse_json_sections form_lib (row_get form_row ''Json'') = Inr (Some form_sections)
   \<and> flatten_questions form_lib form_sections []
       = Inr [''Notes'' \<mapsto> [], ''DOB'' \<mapsto> [''15/01/1990''], ''Signature'' \<mapsto> []]
   \<and> (\<exists>out. emit_row form_lib ''Json'' [''Client Name''] []
          [''Allergies'', ''Notes'', ''DOB'', ''Signature''] form_row = Inr out
        \<and> out ''Allergies'' = Some ''(N/A)''
        \<and> out ''Notes'' = Some ''(NoResponse)''
        \<and> out ''DOB'' = Some ''15/01/1990''
        \<and> out ''Signature'' = Some ''not signed''
        \<and> out ''Client Name'' = Some ''Ann'')"
proof -
  let ?qm = "[''Notes'' \<mapsto> [], ''DOB'' \<mapsto> [''15/01/1990''], ''Signature'' \<mapsto> []]"
  let ?union = "[''Allergies'', ''Notes'', ''DOB'', ''Signature'']"
  from emitted_cells [where lib = form_lib and r = form_row and json_col = "''Json''"
      and sections = form_sections and keys = "[]" and qm = ?qm
      and meta_cols = "[''Client Name'']" and union_titles = ?union]
    form_parse_eval form_flatten_eval
  obtain out where e: "emit_row form_lib ''Json'' [''Client Name''] [] ?union form_row = Inr out"
    and cells: "\<forall>t \<in> set ?union.
              (?qm t = None \<longrightarrow> out t = Some ''(N/A)'')
            \<and> (?qm t = Some [] \<and> t = ''Signature'' \<longrightarrow> out t = Some ''not signed'')
            \<and> (?qm t = Some [] \<and> t \<noteq> ''Signature'' \<longrightarrow> out t = Some ''(NoResponse)'')
            \<and> (\<forall>answers. ?qm t = Some answers \<and> answers \<noteq> []
                  \<longrightarrow> out t = Some (join ''; '' answers))"
    and meta: "\<forall>c \<in> set [''Client Name'']. c \<notin> set ?union
              \<longrightarrow> out c = Some (case form_row c of None \<Rightarrow> [] | Some v \<Rightarrow> v)"
    by blast
  from cells have 1: "out ''Allergies'' = Some ''(N/A)''" by simp
  from cells have 2: "out ''Notes'' = Some ''(NoResponse)''" by simp
  from cells have 3: "out ''DOB'' = Some ''15/01/1990''" by simp
  from cells have 4: "out ''Signature'' = Some ''not signed''" by simp
  from meta have 5: "out ''Client Name'' = Some ''Ann''" by (simp add: form_row_def)
  from form_parse_eval form_flatten_eval e 1 2 3 4 5 show ?thesis by blast
qed

section \<open>Row count of pass 2\<close>

lemmas keep_defs = should_keep_row_def norm_title_str_def py_strip_def strip_with_def is_space_def

lemma emit_row_no_sections:
  assumes "parse_json_sections lib (row_get r json_col) = Inr sections" and "no_sections sections"
  shows "emit_row lib json_col meta_cols keys union_titles r
     = Inr (fill_na union_titles (meta_row meta_cols r))"
  using assms by (simp add: emit_row_def)

lemma pass2_length:
  "pass2 lib title_col form_titles json_col meta_cols keys union_titles rows = Inr outs
   \<Longrightarrow> length outs = length (filter (\<lambda>r. should_keep_row r title_col form_titles) rows)"
proof (induction rows arbitrary: outs)
  case Nil
  then show ?case by simp
next
  case (Cons r rows)
  then show ?case by (auto split: if_splits sum.splits)
qed

lemma pass2_returns:
  "(\<forall>r \<in> set rows. should_keep_row r title_col form_titles
      \<longrightarrow> (\<exists>out. emit_row lib json_col meta_cols keys union_titles r = Inr out))
   \<Longrightarrow> \<exists>outs. pass2 lib title_col form_titles json_col meta_cols keys union_titles rows = Inr outs"
proof (induction rows)
  case Nil
  then show ?case by simp
next
  case (Cons r rows)
  then show ?case by (auto split: if_splits sum.splits)
qed

text \<open>
  C2, as stated, fails: the count of the rows written equals the count of the rows kept
  "regardless of payload validity" only when no exception ends the run. The row below is
  kept, its payload \<^verbatim>\<open>[1]\<close> parses to a non-empty list, and \<^verbatim>\<open>sec.get\<close> on the number
  raises \<^verbatim>\<open>AttributeError\<close>, in pass 2 and, in a whole run, already in pass 1: one row is
  kept and none is written.
\<close>

theorem row_count_parity_counterexample:
  "should_keep_row bad_row (Some ''Title'') (Some [''Intake''])
   \<and> length (filter (\<lambda>r. should_keep_row r (Some ''Title'') (Some [''Intake''])) [bad_row]) = 1
   \<and> parse_json_sections form_lib (row_get bad_row ''Json'') = Inr (Some [JInt 1])
   \<and> pass2 form_lib (Some ''Title'') (Some [''Intake'']) ''Json'' [] [] [] [bad_row]
       = Inl AttributeError
   \<and> main_passes form_lib [(''form_titles'', JList [JStr ''Intake''])] (Some ''Title'') ''Json''
        [] [] [bad_row] = Inl AttributeError"
proof -
  have k: "should_keep_row bad_row (Some ''Title'') (Some [''Intake''])"
    by (simp add: should_keep_row_def bad_row_def norm_title_str_def py_strip_def strip_with_def
        is_space_def)
  have p: "parse_json_sections form_lib (row_get bad_row ''Json'') = Inr (Some [JInt 1])"
    by (simp add: parse_json_sections_def row_get_def bad_row_def form_lib_def sample_lib_def
        form_text_def py_strip_def strip_with_def is_space_def starts_bracket_def sections_of_def)
  have f: "flatten_questions form_lib [JInt 1] [] = Inl AttributeError"
    by (simp add: flatten_questions_def questions_of_def)
  have c: "collect_question_titles [JInt 1] = Inl AttributeError"
    by (simp add: collect_question_titles_def questions_of_def)
  have e: "emit_row form_lib ''Json'' [] [] [] bad_row = Inl AttributeError"
    by (simp add: emit_row_def p f no_sections_def)
  have p2: "pass2 form_lib (Some ''Title'') (Some [''Intake'']) ''Json'' [] [] [] [bad_row]
       = Inl AttributeError"
    by (simp add: k e)
  have ft: "main_form_titles [(''form_titles'', JList [JStr ''Intake''])] = Inr [''Intake'']"
    by (simp add: main_form_titles_def norm_title_def py_or_def norm_title_str_def py_strip_def
        strip_with_def is_space_def)
  have p1: "pass1 form_lib (Some ''Title'') (Some [''Intake'']) ''Json'' [bad_row]
       = Inl AttributeError"
    by (simp add: pass1_def k p c no_sections_def)
  have m: "main_passes form_lib [(''form_titles'', JList [JStr ''Intake''])] (Some ''Title'')
        ''Json'' [] [] [bad_row] = Inl AttributeError"
    by (simp add: main_passes_def ft p1)
  from k p p2 m show ?thesis by simp
qed

text \<open>
  C2, amended. A kept row whose payload gives no sections (the cell is missing, is not
  parseable, is not a list or a record with a list, or is an empty list) is written by
  pass 2, without any exception, with \<^verbatim>\<open>(N/A)\<close> in every question column. Whenever pass 2
  returns, it has written as many rows as the row filter keeps; and it returns whenever
  the flattening of every kept row does.
\<close>

theorem row_count_parity:
  "(should_keep_row r title_col form_titles
      \<and> parse_json_sections lib (row_get r json_col) = Inr sections \<and> no_sections sections
      \<longrightarrow> (\<exists>out. emit_row lib json_col meta_cols keys union_titles r = Inr out
             \<and> (\<forall>t \<in> set union_titles. out t = Some ''(N/A)'')))
   \<and> (pass2 lib title_col form_titles json_col meta_cols keys union_titles rows = Inr outs
      \<longrightarrow> length outs = length (filter (\<lambda>r. should_keep_row r title_col form_titles) rows))
   \<and> ((\<forall>r \<in> set rows. should_keep_row r title_col form_titles
            \<longrightarrow> (\<exists>out. emit_row lib json_col meta_cols keys union_titles r = Inr out))
      \<longrightarrow> (\<exists>outs'. pass2 lib title_col form_titles json_col meta_cols keys union_titles rows
                     = Inr outs'
             \<and> length outs' = length (filter (\<lambda>r. should_keep_row r title_col form_titles) rows)))"
proof (intro conjI impI)
  assume "should_keep_row r title_col form_titles
      \<and> parse_json_sections lib (row_get r json_col) = Inr sections \<and> no_sections sections"
  then have "emit_row lib json_col meta_cols keys union_titles r
     = Inr (fill_na union_titles (meta_row meta_cols r))"
    by (simp add: emit_row_no_sections)
  moreover have "\<forall>t \<in> set union_titles.
      fill_na union_titles (meta_row meta_cols r) t = Some ''(N/A)''"
    by (simp add: fill_na_at)
  ultimately show "\<exists>out. emit_row lib json_col meta_cols keys union_titles r = Inr out
             \<and> (\<forall>t \<in> set union_titles. out t = Some ''(N/A)'')"
    by blast
next
  assume "pass2 lib title_col form_titles json_col meta_cols keys union_titles rows = Inr outs"
  then show "length outs = length (filter (\<lambda>r. should_keep_row r title_col form_titles) rows)"
    by (rule pass2_length)
next
  assume "\<forall>r \<in> set rows. should_keep_row r title_col form_titles
            \<longrightarrow> (\<exists>out. emit_row lib json_col meta_cols keys union_titles r = Inr out)"
  from pass2_returns [OF this] obtain outs'
    where "pass2 lib title_col form_titles json_col meta_cols keys union_titles rows = Inr outs'"
    by blast
  then show "\<exists>outs'. pass2 lib title_col form_titles json_col meta_cols keys union_titles rows
                     = Inr outs'
             \<and> length outs' = length (filter (\<lambda>r. should_keep_row r title_col form_titles) rows)"
    using pass2_length by blast
qed

text \<open>The theorem at a file of three rows: the example form, a row whose payload is
  \<^verbatim>\<open>not json\<close>, and a row of another form, which the filter drops.\<close>

theorem row_count_parity_witness:
  "should_keep_row unparsed_row (Some ''Title'') (Some [''Intake''])
   \<and> parse_json_sections form_lib (row_get unparsed_row ''Json'') = Inr None
   \<and> (\<exists>out. emit_row form_lib ''Json'' [''Client Name''] []
          [''Allergies'', ''Notes'', ''DOB'', ''Signature''] unparsed_row = Inr out
        \<and> out ''Allergies'' = Some ''(N/A)'' \<and> out ''Notes'' = Some ''(N/A)''
        \<and> out ''DOB'' = Some ''(N/A)'' \<and> out ''Signature'' = Some ''(N/A)'')
   \<and> (\<exists>outs. pass2 form_lib (Some ''Title'') (Some [''Intake'']) ''Json'' [''Client Name''] []
          [''Allergies'', ''Notes'', ''DOB'', ''Signature'']
          [form_row, unparsed_row, consent_row] = Inr outs
        \<and> length outs = 2)"
proof -
  let ?union = "[''Allergies'', ''Notes'', ''DOB'', ''Signature'']"
  let ?rows = "[form_row, unparsed_row, consent_row]"
  note inst = row_count_parity [where r = unparsed_row and title_col = "Some ''Title''"
      and form_titles = "Some [''Intake'']" and lib = form_lib and json_col = "''Json''"
      and sections = None and meta_cols = "[''Client Name'']" and keys = "[]"
      and union_titles = ?union and rows = ?rows]
  have k1: "should_keep_row form_row (Some ''Title'') (Some [''Intake''])"
    by (simp add: keep_defs form_row_def)
  have k2: "should_keep_row unparsed_row (Some ''Title'') (Some [''Intake''])"
    by (simp add: keep_defs unparsed_row_def)
  have k3: "\<not> should_keep_row consent_row (Some ''Title'') (Some [''Intake''])"
    by (simp add: keep_defs consent_row_def)
  have p: "parse_json_sections form_lib (row_get unparsed_row ''Json'') = Inr None"
    by (simp add: parse_json_sections_def row_get_def unparsed_row_def py_strip_def
        strip_with_def is_space_def starts_bracket_def)
  from inst k2 p obtain out
    where e2: "emit_row form_lib ''Json'' [''Client Name''] [] ?union unparsed_row = Inr out"
      and na: "\<forall>t \<in> set ?union. out t = Some ''(N/A)''"
    by (auto simp: no_sections_def)
  have ne: "form_sections \<noteq> []" by (simp add: form_sections_def)
  have e1: "\<exists>out. emit_row form_lib ''Json'' [''Client Name''] [] ?union form_row = Inr out"
    by (simp add: emit_row_def form_parse_eval form_flatten_eval no_sections_def ne)
  from e1 e2 k3 have "\<forall>r \<in> set ?rows. should_keep_row r (Some ''Title'') (Some [''Intake''])
      \<longrightarrow> (\<exists>out. emit_row form_lib ''Json'' [''Client Name''] [] ?union r = Inr out)"
    by simp
  with inst obtain outs
    where "pass2 form_lib (Some ''Title'') (Some [''Intake'']) ''Json'' [''Client Name''] []
          ?union ?rows = Inr outs"
      and "length outs
         = length (filter (\<lambda>r. should_keep_row r (Some ''Title'') (Some [''Intake''])) ?rows)"
    by blast
  with k1 k2 k3 have "\<exists>outs. pass2 form_lib (Some ''Title'') (Some [''Intake'']) ''Json''
          [''Client Name''] [] ?union ?rows = Inr outs \<and> length outs = 2"
    by simp
  with k2 p e2 na show ?thesis by simp
qed

section \<open>Pass 1 is idempotent\<close>

lemma pass1_rows_Cons:
  "pass1_rows lib tc ft jc (r # rs) st
     = (case row_titles lib tc ft jc r of
          Inl e \<Rightarrow> Inl e
        | Inr ts \<Rightarrow> pass1_rows lib tc ft jc rs (add_titles ts st))"
  by (simp add: row_titles_def split: sum.splits)

lemma add_titles_seen:
  "add_titles ts st = st' \<Longrightarrow> fset (snd st') = fset (snd st) \<union> set ts"
proof (induction ts arbitrary: st)
  case Nil
  then show ?case by simp
next
  case (Cons t ts)
  obtain u s where st: "st = (u, s)" by (cases st)
  show ?case
  proof (cases "t |\<in>| s")
    case True
    with Cons.prems st have "add_titles ts (u, s) = st'" by simp
    from Cons.IH [OF this] True show ?thesis by (auto simp: st)
  next
    case False
    with Cons.prems st have "add_titles ts (u @ [t], finsert t s) = st'" by simp
    from Cons.IH [OF this] show ?thesis by (auto simp: st)
  qed
qed

lemma add_titles_known:
  "set ts \<subseteq> fset (snd st) \<Longrightarrow> add_titles ts st = st"
proof (induction ts arbitrary: st)
  case Nil
  then show ?case by simp
next
  case (Cons t ts)
  obtain u s where st: "st = (u, s)" by (cases st)
  from Cons.prems st have "t |\<in>| s" and "set ts \<subseteq> fset (snd (u, s))" by simp_all
  with Cons.IH [of "(u, s)"] show ?case by (simp add: st)
qed

lemma add_titles_distinct:
  "add_titles ts st = st' \<Longrightarrow> titles_inv st \<Longrightarrow> titles_inv st'"
proof (induction ts arbitrary: st)
  case Nil
  then show ?case by simp
next
  case (Cons t ts)
  obtain u s where st: "st = (u, s)" by (cases st)
  show ?case
  proof (cases "t |\<in>| s")
    case True
    with Cons.prems st have "add_titles ts (u, s) = st'" by simp
    from Cons.IH [OF this] Cons.prems(2) st show ?thesis by simp
  next
    case False
    with Cons.prems st have a: "add_titles ts (u @ [t], finsert t s) = st'" by simp
    from Cons.prems(2) st False have "titles_inv (u @ [t], finsert t s)"
      by (auto simp: titles_inv_def)
    from Cons.IH [OF a this] show ?thesis .
  qed
qed

lemma pass1_rows_seen:
  "pass1_rows lib tc ft jc rows st = Inr st' \<Longrightarrow>
     fset (snd st) \<subseteq> fset (snd st')
     \<and> (\<forall>r \<in> set rows. \<exists>ts. row_titles lib tc ft jc r = Inr ts \<and> set ts \<subseteq> fset (snd st'))"
proof (induction rows arbitrary: st)
  case Nil
  then show ?case by simp
next
  case (Cons r rows)
  from Cons.prems obtain ts where rt: "row_titles lib tc ft jc r = Inr ts"
    and rest: "pass1_rows lib tc ft jc rows (add_titles ts st) = Inr st'"
    by (auto simp: pass1_rows_Cons split: sum.splits simp del: pass1_rows.simps)
  from Cons.IH [OF rest] have sub: "fset (snd (add_titles ts st)) \<subseteq> fset (snd st')"
    and all: "\<forall>r \<in> set rows. \<exists>ts. row_titles lib tc ft jc r = Inr ts \<and> set ts \<subseteq> fset (snd st')"
    by blast+
  have "fset (snd (add_titles ts st)) = fset (snd st) \<union> set ts"
    by (rule add_titles_seen) (rule refl)
  with sub have "fset (snd st) \<subseteq> fset (snd st')" and "set ts \<subseteq> fset (snd st')" by auto
  with rt all show ?case by auto
qed

lemma pass1_rows_known:
  "\<forall>r \<in> set rows. \<exists>ts. row_titles lib tc ft jc r = Inr ts \<and> set ts \<subseteq> fset (snd st)
   \<Longrightarrow> pass1_rows lib tc ft jc rows st = Inr st"
proof (induction rows)
  case Nil
  then show ?case by simp
next
  case (Cons r rows)
  from Cons.prems obtain ts where rt: "row_titles lib tc ft jc r = Inr ts"
    and sub: "set ts \<subseteq> fset (snd st)" by auto
  from Cons.prems have "pass1_rows lib tc ft jc rows st = Inr st"
    by (intro Cons.IH) simp
  with rt add_titles_known [OF sub] show ?case
    by (simp add: pass1_rows_Cons del: pass1_rows.simps)
qed

lemma pass1_rows_append:
  "pass1_rows lib tc ft jc (rows @ rows') st
     = (case pass1_rows lib tc ft jc rows st of
          Inl e \<Rightarrow> Inl e
        | Inr st' \<Rightarrow> pass1_rows lib tc ft jc rows' st')"
proof (induction rows arbitrary: st)
  case Nil
  then show ?case by simp
next
  case (Cons r rows)
  show ?case
    using Cons.IH
    by (simp add: pass1_rows_Cons del: pass1_rows.simps split: sum.splits)
qed

lemma pass1_rows_again:
  assumes "pass1_rows lib tc ft jc rows st = Inr st'"
  shows "pass1_rows lib tc ft jc rows st' = Inr st'"
  using pass1_rows_seen [OF assms] by (intro pass1_rows_known) blast

lemma pass1_rows_distinct:
  "pass1_rows lib tc ft jc rows st = Inr st' \<Longrightarrow> titles_inv st \<Longrightarrow> titles_inv st'"
proof (induction rows arbitrary: st)
  case Nil
  then show ?case by simp
next
  case (Cons r rows)
  from Cons.prems(1) obtain ts where rt: "row_titles lib tc ft jc r = Inr ts"
    and rest: "pass1_rows lib tc ft jc rows (add_titles ts st) = Inr st'"
    by (auto simp: pass1_rows_Cons split: sum.splits simp del: pass1_rows.simps)
  have "titles_inv (add_titles ts st)"
    using add_titles_distinct [OF refl Cons.prems(2)] .
  from Cons.IH [OF rest this] show ?case .
qed

text \<open>
  C9. Pass 1 is a function of the rows (the script uses its sets for membership tests
  only, so nothing in it depends on an iteration order), and running its loop a second
  time changes nothing: started again from the state it reached, the loop over the same
  rows ends in that state, so a scan of the rows twice over gives the union title list
  (or the exception) of a single scan, in the same order. The list has no duplicates.
\<close>

theorem pass1_idempotent:
  "pass1 lib title_col form_titles json_col (rows @ rows)
     = pass1 lib title_col form_titles json_col rows
   \<and> (pass1_rows lib title_col form_titles json_col rows ([], {||}) = Inr st
      \<longrightarrow> pass1_rows lib title_col form_titles json_col rows st = Inr st)
   \<and> (pass1 lib title_col form_titles json_col rows = Inr union_titles
      \<longrightarrow> distinct union_titles)"
proof (intro conjI impI)
  show "pass1 lib title_col form_titles json_col (rows @ rows)
     = pass1 lib title_col form_titles json_col rows"
  proof (cases "pass1_rows lib title_col form_titles json_col rows ([], {||})")
    case (Inl e)
    then show ?thesis by (simp add: pass1_def pass1_rows_append)
  next
    case (Inr st')
    with pass1_rows_again [OF Inr] show ?thesis by (simp add: pass1_def pass1_rows_append)
  qed
next
  assume "pass1_rows lib title_col form_titles json_col rows ([], {||}) = Inr st"
  then show "pass1_rows lib title_col form_titles json_col rows st = Inr st"
    by (rule pass1_rows_again)
next
  assume "pass1 lib title_col form_titles json_col rows = Inr union_titles"
  then obtain seen where
    "pass1_rows lib title_col form_titles json_col rows ([], {||}) = Inr (union_titles, seen)"
    by (auto simp: pass1_def split: sum.splits prod.splits)
  from pass1_rows_distinct [OF this] show "distinct union_titles"
    by (simp add: titles_inv_def)
qed

text \<open>The theorem at a file of four rows, two of which carry the example form.\<close>

theorem pass1_idempotent_witness:
  "pass1 form_lib (Some ''Title'') (Some [''Intake'']) ''Json''
       [form_row, unparsed_row, consent_row, form_row]
     = Inr [''Allergies'', ''Notes'', ''DOB'', ''Signature'']
   \<and> pass1 form_lib (Some ''Title'') (Some [''Intake'']) ''Json''
       ([form_row, unparsed_row, consent_row, form_row]
        @ [form_row, unparsed_row, consent_row, form_row])
     = Inr [''Allergies'', ''Notes'', ''DOB'', ''Signature'']
   \<and> distinct [''Allergies'', ''Notes'', ''DOB'', ''Signature'']"
proof -
  let ?rows = "[form_row, unparsed_row, consent_row, form_row]"
  let ?union = "[''Allergies'', ''Notes'', ''DOB'', ''Signature'']"
  have k1: "should_keep_row form_row (Some ''Title'') (Some [''Intake''])"
    by (simp add: keep_defs form_row_def)
  have k2: "should_keep_row unparsed_row (Some ''Title'') (Some [''Intake''])"
    by (simp add: keep_defs unparsed_row_def)
  have k3: "\<not> should_keep_row consent_row (Some ''Title'') (Some [''Intake''])"
    by (simp add: keep_defs consent_row_def)
  have p: "parse_json_sections form_lib (row_get unparsed_row ''Json'') = Inr None"
    by (simp add: parse_json_sections_def row_get_def unparsed_row_def py_strip_def
        strip_with_def is_space_def starts_bracket_def)
  have ne: "form_sections \<noteq> []" by (simp add: form_sections_def)
  have once: "pass1 form_lib (Some ''Title'') (Some [''Intake'']) ''Json'' ?rows = Inr ?union"
    by (simp add: pass1_def k1 k2 k3 p form_parse_eval form_titles_eval no_sections_def ne)
  note inst = pass1_idempotent [where lib = form_lib and title_col = "Some ''Title''"
      and form_titles = "Some [''Intake'']" and json_col = "''Json''" and rows = ?rows
      and union_titles = ?union]
  from inst once
  have twice: "pass1 form_lib (Some ''Title'') (Some [''Intake'']) ''Json'' (?rows @ ?rows)
      = Inr ?union"
    by simp
  from inst once have "distinct ?union" by blast
  with once twice show ?thesis by blast
qed

section \<open>Dates of birth\<close>










end
